theory Spec2Isabelle
  imports Complex_Main "HOL-Library.Multiset"
begin

section \<open>Halloween Haunt: entity simulation core\<close>

text \<open>
  A shallow embedding of the simulation core of the game: \<open>TileMap\<close>, \<open>Player\<close>,
  \<open>Ghost\<close> and \<open>Candy\<close> of \<^verbatim>\<open>entities.py\<close>, and \<open>ChurchPuzzle\<close> of
  \<^verbatim>\<open>special_features.py\<close>, with the constants of \<^verbatim>\<open>halloween_haunt.py\<close>.

  Conventions of the embedding:
  \<^item> a Python object is a record, a method takes the object and returns the updated one
    together with the method's return value;
  \<^item> a Python \<open>int\<close> is an \<open>int\<close>; a Python \<open>float\<close> is a \<open>real\<close>, so arithmetic is
    exact: rounding, overflow to infinity and NaN are outside the model;
  \<^item> every exception the modelled code can raise (an index out of range, a division by
    zero) is a value \<open>Inl e\<close> of a sum type;
  \<^item> the pseudo-random draws of \<^verbatim>\<open>random\<close> are an explicit argument;
  \<^item> pygame sprites and rectangles, which only drawing and overlap tests read, are left out.
\<close>

subsection \<open>Constants and enumerations (halloween\_haunt.py)\<close>

definition TILE_SIZE :: int where "TILE_SIZE = 32"
definition PLAYER_MAX_SPEED :: real where "PLAYER_MAX_SPEED = 3.0"
definition PLAYER_ACCELERATION :: real where "PLAYER_ACCELERATION = 0.2"
definition PLAYER_DECELERATION :: real where "PLAYER_DECELERATION = 0.15"
definition GHOST_SPEED :: real where "GHOST_SPEED = 1.5"
definition GHOST_CHASE_SPEED :: real where "GHOST_CHASE_SPEED = 2.5"
definition GHOST_DETECTION_RADIUS :: real where "GHOST_DETECTION_RADIUS = 100"
definition PLAYER_MAX_HEALTH :: int where "PLAYER_MAX_HEALTH = 3"
definition INVINCIBILITY_DURATION :: int where "INVINCIBILITY_DURATION = 120"

text \<open>
  Floats are exact reals in this development. Where a statement bounds or fixes a
  magnitude that the code computes through \<open>sqrt\<close>, a division and a product, it carries
  this relative slack, a few million times the rounding error of double precision.
\<close>

definition rounding_tolerance :: real where "rounding_tolerance = 1 / 10 ^ 9"

type_synonym colour = "int \<times> int \<times> int"

definition WHITE :: colour where "WHITE = (255, 255, 255)"
definition BLUE :: colour where "BLUE = (0, 0, 255)"
definition YELLOW :: colour where "YELLOW = (255, 255, 0)"

datatype TileType =
  EMPTY | STREET | HOUSE | WALL | CHURCH | GRAVE | TREE | DOOR | CHURCH_DOOR
  | CEMETERY_GATE | TRASH_CAN

datatype PowerUpType =
  CANDY_MAGNET | GHOST_REPEL | EXTRA_HEART | SPEED_BOOST | ZOMBIE_POWER | INVISIBILITY
  | TIME_SLOW | DOUBLE_POINTS | SHIELD

record PowerUp =
  pu_type :: PowerUpType
  pu_duration :: int
  pu_strength :: real

record Particle =
  pt_x :: real
  pt_y :: real
  pt_vx :: real
  pt_vy :: real
  pt_color :: colour
  pt_lifetime :: int
  pt_max_lifetime :: int

definition Particle_init :: "real \<Rightarrow> real \<Rightarrow> real \<Rightarrow> real \<Rightarrow> colour \<Rightarrow> int \<Rightarrow> Particle" where
  "Particle_init x y vx vy c life =
     \<lparr>pt_x = x, pt_y = y, pt_vx = vx, pt_vy = vy, pt_color = c, pt_lifetime = life,
      pt_max_lifetime = life\<rparr>"

subsection \<open>Python exceptions and checked primitives\<close>

datatype error = IndexError | ZeroDivisionError | AttributeError

definition bind_err :: "error + 'a \<Rightarrow> ('a \<Rightarrow> error + 'b) \<Rightarrow> error + 'b" where
  "bind_err m f = (case m of Inl e \<Rightarrow> Inl e | Inr v \<Rightarrow> f v)"

text \<open>\<open>xs[i]\<close>: an index below zero counts from the end, one out of range raises.\<close>

definition py_getitem :: "'a list \<Rightarrow> int \<Rightarrow> error + 'a" where
  "py_getitem xs i =
     (if 0 \<le> i \<and> i < int (length xs) then Inr (xs ! nat i)
      else if i < 0 \<and> - int (length xs) \<le> i then Inr (xs ! nat (int (length xs) + i))
      else Inl IndexError)"

text \<open>\<open>xs[i] = v\<close>, with the same index rule.\<close>

definition py_setitem :: "'a list \<Rightarrow> int \<Rightarrow> 'a \<Rightarrow> error + 'a list" where
  "py_setitem xs i v =
     (if 0 \<le> i \<and> i < int (length xs) then Inr (xs[nat i := v])
      else if i < 0 \<and> - int (length xs) \<le> i then Inr (xs[nat (int (length xs) + i) := v])
      else Inl IndexError)"

text \<open>\<open>a / b\<close> on floats raises when the divisor is zero.\<close>

definition py_truediv :: "real \<Rightarrow> real \<Rightarrow> error + real" where
  "py_truediv a b = (if b = 0 then Inl ZeroDivisionError else Inr (a / b))"

text \<open>\<open>int(v // TILE_SIZE)\<close>: floor division, which already yields a whole number.\<close>

definition tile_of :: "real \<Rightarrow> int" where
  "tile_of v = \<lfloor>v / real_of_int TILE_SIZE\<rfloor>"

subsection \<open>TileMap (entities.py)\<close>

record TileMap =
  width :: int
  height :: int
  tiles :: "TileType list list"

definition TileMap_init :: "int \<Rightarrow> int \<Rightarrow> TileMap" where
  "TileMap_init w h =
     \<lparr>width = w, height = h, tiles = replicate (nat h) (replicate (nat w) EMPTY)\<rparr>"

definition in_bounds :: "TileMap \<Rightarrow> int \<Rightarrow> int \<Rightarrow> bool" where
  "in_bounds tm x y = (0 \<le> x \<and> x < width tm \<and> 0 \<le> y \<and> y < height tm)"

definition set_tile :: "TileMap \<Rightarrow> int \<Rightarrow> int \<Rightarrow> TileType \<Rightarrow> error + TileMap" where
  "set_tile tm x y tile_type =
     (if in_bounds tm x y then
        bind_err (py_getitem (tiles tm) y) (\<lambda>row.
        bind_err (py_setitem row x tile_type) (\<lambda>row'.
        bind_err (py_setitem (tiles tm) y row') (\<lambda>ts.
        Inr (tm\<lparr>tiles := ts\<rparr>))))
      else Inr tm)"

definition get_tile :: "TileMap \<Rightarrow> int \<Rightarrow> int \<Rightarrow> error + TileType" where
  "get_tile tm x y =
     (if in_bounds tm x y then
        bind_err (py_getitem (tiles tm) y) (\<lambda>row. py_getitem row x)
      else Inr WALL)"

definition solid_tiles :: "TileType list" where
  "solid_tiles = [WALL, HOUSE, CHURCH, GRAVE, TREE, TRASH_CAN]"

definition is_solid_tile :: "TileMap \<Rightarrow> int \<Rightarrow> int \<Rightarrow> error + bool" where
  "is_solid_tile tm x y =
     bind_err (get_tile tm x y) (\<lambda>tile. Inr (tile \<in> set solid_tiles))"

definition is_door_tile :: "TileMap \<Rightarrow> int \<Rightarrow> int \<Rightarrow> error + bool" where
  "is_door_tile tm x y =
     bind_err (get_tile tm x y) (\<lambda>tile. Inr (tile \<in> set [DOOR, CHURCH_DOOR, CEMETERY_GATE]))"

text \<open>
  The shape \<open>TileMap.__init__\<close> builds and \<open>set_tile\<close> keeps: \<open>height\<close> rows of
  \<open>width\<close> cells each.
\<close>

definition wf_map :: "TileMap \<Rightarrow> bool" where
  "wf_map tm =
     (length (tiles tm) = nat (height tm) \<and>
      list_all (\<lambda>row. length row = nat (width tm)) (tiles tm))"

text \<open>The tile read by an in-range lookup on a well-shaped map.\<close>

definition tile_at :: "TileMap \<Rightarrow> int \<Rightarrow> int \<Rightarrow> TileType" where
  "tile_at tm x y = (if in_bounds tm x y then tiles tm ! nat y ! nat x else WALL)"

subsection \<open>Player (entities.py)\<close>

text \<open>The keys \<open>Player.update\<close> and \<open>ChurchPuzzle.handle_input\<close> read from \<open>keys_pressed\<close>.\<close>

record keys =
  K_a :: bool
  K_LEFT :: bool
  K_d :: bool
  K_RIGHT :: bool
  K_w :: bool
  K_UP :: bool
  K_s :: bool
  K_DOWN :: bool

definition no_keys :: keys where
  "no_keys = \<lparr>K_a = False, K_LEFT = False, K_d = False, K_RIGHT = False, K_w = False,
     K_UP = False, K_s = False, K_DOWN = False\<rparr>"

record Player =
  p_x :: real
  p_y :: real
  p_vx :: real
  p_vy :: real
  health :: int
  candies_collected :: int
  score :: int
  invincible_timer :: int
  p_radius :: int
  facing_direction :: real
  active_powerups :: "PowerUp list"
  invisibility_active :: bool
  time_slow_active :: bool
  double_points_active :: bool
  shield_active :: bool

definition Player_init :: "real \<Rightarrow> real \<Rightarrow> Player" where
  "Player_init x y =
     \<lparr>p_x = x, p_y = y, p_vx = 0, p_vy = 0, health = PLAYER_MAX_HEALTH,
      candies_collected = 0, score = 0, invincible_timer = 0, p_radius = 12,
      facing_direction = 0, active_powerups = [], invisibility_active = False,
      time_slow_active = False, double_points_active = False, shield_active = False\<rparr>"

text \<open>\<open>math.atan2\<close> on reals (signed zeros aside).\<close>

definition atan2 :: "real \<Rightarrow> real \<Rightarrow> real" where
  "atan2 y x =
     (if 0 < x then arctan (y / x)
      else if x < 0 then (if 0 \<le> y then arctan (y / x) + pi else arctan (y / x) - pi)
      else if 0 < y then pi / 2
      else if y < 0 then - pi / 2
      else 0)"

text \<open>
  The movement keys, then acceleration and friction. The four \<open>if\<close>s of the source run
  in order, so the right key overrides the left one and down overrides up.
\<close>

definition input_acceleration :: "keys \<Rightarrow> real \<times> real" where
  "input_acceleration kp =
     (let ax0 = (if K_a kp \<or> K_LEFT kp then - PLAYER_ACCELERATION else 0);
          ax = (if K_d kp \<or> K_RIGHT kp then PLAYER_ACCELERATION else ax0);
          ay0 = (if K_w kp \<or> K_UP kp then - PLAYER_ACCELERATION else 0);
          ay = (if K_s kp \<or> K_DOWN kp then PLAYER_ACCELERATION else ay0)
      in (ax, ay))"

definition apply_input :: "keys \<Rightarrow> Player \<Rightarrow> Player" where
  "apply_input kp self =
     (let (ax, ay) = input_acceleration kp;
          vx1 = p_vx self + ax;
          vy1 = p_vy self + ay;
          vx2 = (if ax = 0 then vx1 * (1.0 - PLAYER_DECELERATION) else vx1);
          vy2 = (if ay = 0 then vy1 * (1.0 - PLAYER_DECELERATION) else vy1)
      in self\<lparr>p_vx := vx2, p_vy := vy2\<rparr>)"

text \<open>
  The loop over \<open>active_powerups\<close>: the accumulator is \<open>speed_multiplier\<close> and the four
  local flags, in the order invisibility, time slow, double points, shield.
\<close>

type_synonym poll = "real \<times> bool \<times> bool \<times> bool \<times> bool"

fun poll_step :: "poll \<Rightarrow> PowerUp \<Rightarrow> poll" where
  "poll_step (m, invis, slow, dbl, shld) powerup =
     (if pu_type powerup = SPEED_BOOST then (m * 1.5, invis, slow, dbl, shld)
      else if pu_type powerup = INVISIBILITY then (m, True, slow, dbl, shld)
      else if pu_type powerup = TIME_SLOW then (m, invis, True, dbl, shld)
      else if pu_type powerup = DOUBLE_POINTS then (m, invis, slow, True, shld)
      else if pu_type powerup = SHIELD then (m, invis, slow, dbl, True)
      else (m, invis, slow, dbl, shld))"

definition poll_powerups :: "PowerUp list \<Rightarrow> poll" where
  "poll_powerups ps = foldl poll_step (1.0, False, False, False, False) ps"

definition speed_multiplier :: "Player \<Rightarrow> real" where
  "speed_multiplier self = fst (poll_powerups (active_powerups self))"

definition store_powerup_states :: "Player \<Rightarrow> Player" where
  "store_powerup_states self =
     (let (m, invis, slow, dbl, shld) = poll_powerups (active_powerups self)
      in self\<lparr>invisibility_active := invis, time_slow_active := slow,
              double_points_active := dbl, shield_active := shld\<rparr>)"

text \<open>Limit maximum speed: a faster velocity is rescaled, keeping its direction.\<close>

definition limit_speed :: "real \<Rightarrow> Player \<Rightarrow> error + Player" where
  "limit_speed max_speed self =
     (let speed = sqrt ((p_vx self)\<^sup>2 + (p_vy self)\<^sup>2)
      in if speed > max_speed then
           bind_err (py_truediv (p_vx self) speed) (\<lambda>qx.
           bind_err (py_truediv (p_vy self) speed) (\<lambda>qy.
           Inr (self\<lparr>p_vx := qx * max_speed, p_vy := qy * max_speed\<rparr>)))
         else Inr self)"

text \<open>\<open>_check_wall_collision\<close>: the four corners in the source's order, first hit wins.\<close>

fun corners_solid :: "TileMap \<Rightarrow> (real \<times> real) list \<Rightarrow> error + bool" where
  "corners_solid tile_map [] = Inr False"
| "corners_solid tile_map ((corner_x, corner_y) # rest) =
     bind_err (is_solid_tile tile_map (tile_of corner_x) (tile_of corner_y)) (\<lambda>solid.
       if solid then Inr True else corners_solid tile_map rest)"

definition Player_check_wall_collision :: "Player \<Rightarrow> real \<Rightarrow> real \<Rightarrow> TileMap \<Rightarrow> error + bool" where
  "Player_check_wall_collision self x y tile_map =
     (let r = real_of_int (p_radius self)
      in corners_solid tile_map [(x - r, y - r), (x + r, y - r), (x - r, y + r), (x + r, y + r)])"

text \<open>The candidate position, tried on the x axis first and then on the y axis.\<close>

definition Player_move :: "TileMap \<Rightarrow> Player \<Rightarrow> error + Player" where
  "Player_move tile_map self =
     (let new_x = p_x self + p_vx self;
          new_y = p_y self + p_vy self
      in bind_err (Player_check_wall_collision self new_x (p_y self) tile_map) (\<lambda>hit_x.
         let s1 = (if \<not> hit_x then self\<lparr>p_x := new_x\<rparr> else self\<lparr>p_vx := 0\<rparr>)
         in bind_err (Player_check_wall_collision s1 (p_x s1) new_y tile_map) (\<lambda>hit_y.
            Inr (if \<not> hit_y then s1\<lparr>p_y := new_y\<rparr> else s1\<lparr>p_vy := 0\<rparr>))))"

definition update_facing :: "Player \<Rightarrow> Player" where
  "update_facing self =
     (if \<bar>p_vx self\<bar> > 0.1 \<or> \<bar>p_vy self\<bar> > 0.1
      then self\<lparr>facing_direction := atan2 (p_vy self) (p_vx self)\<rparr> else self)"

definition tick_invincibility :: "Player \<Rightarrow> Player" where
  "tick_invincibility self =
     (if invincible_timer self > 0
      then self\<lparr>invincible_timer := invincible_timer self - 1\<rparr> else self)"

text \<open>\<open>_update_powerups\<close>: drop the expired entries, then count the others down.\<close>

definition Player_update_powerups :: "Player \<Rightarrow> Player" where
  "Player_update_powerups self =
     self\<lparr>active_powerups :=
       map (\<lambda>p. p\<lparr>pu_duration := pu_duration p - 1\<rparr>)
         (filter (\<lambda>p. pu_duration p > 0) (active_powerups self))\<rparr>"

definition Player_update :: "keys \<Rightarrow> TileMap \<Rightarrow> Player \<Rightarrow> error + Player" where
  "Player_update keys_pressed tile_map self =
     (let s1 = apply_input keys_pressed self;
          s2 = store_powerup_states s1;
          max_speed = PLAYER_MAX_SPEED * speed_multiplier s1
      in bind_err (limit_speed max_speed s2) (\<lambda>s3.
         bind_err (Player_move tile_map s3) (\<lambda>s4.
         Inr (Player_update_powerups (tick_invincibility (update_facing s4))))))"

definition take_damage :: "Player \<Rightarrow> Player \<times> bool" where
  "take_damage self =
     (if invincible_timer self \<le> 0 \<and> \<not> shield_active self
      then (self\<lparr>health := health self - 1, invincible_timer := INVINCIBILITY_DURATION\<rparr>, True)
      else (self, False))"

definition collect_candy :: "Player \<Rightarrow> int \<Rightarrow> Player" where
  "collect_candy self points =
     (let actual_points = points * (if double_points_active self then 2 else 1)
      in self\<lparr>candies_collected := candies_collected self + 1,
              score := score self + actual_points\<rparr>)"

definition add_powerup :: "Player \<Rightarrow> PowerUpType \<Rightarrow> int \<Rightarrow> Player" where
  "add_powerup self powerup_type duration =
     self\<lparr>active_powerups :=
       filter (\<lambda>p. pu_type p \<noteq> powerup_type) (active_powerups self)
       @ [\<lparr>pu_type = powerup_type, pu_duration = duration, pu_strength = 1.0\<rparr>]\<rparr>"

definition heal :: "Player \<Rightarrow> int \<Rightarrow> Player" where
  "heal self amount = self\<lparr>health := min 5 (health self + amount)\<rparr>"

text \<open>
  The public operations of a player as a command language, to speak about every state
  a sequence of calls can reach from a new player.
\<close>

datatype Player_op =
  Update keys TileMap | TakeDamage | CollectCandy int | AddPowerup PowerUpType int | Heal int

fun apply_op :: "Player \<Rightarrow> Player_op \<Rightarrow> error + Player" where
  "apply_op self (Update kp tm) = Player_update kp tm self"
| "apply_op self TakeDamage = Inr (fst (take_damage self))"
| "apply_op self (CollectCandy points) = Inr (collect_candy self points)"
| "apply_op self (AddPowerup k d) = Inr (add_powerup self k d)"
| "apply_op self (Heal amount) = Inr (heal self amount)"

fun run_ops :: "Player \<Rightarrow> Player_op list \<Rightarrow> error + Player" where
  "run_ops self [] = Inr self"
| "run_ops self (op # ops) = bind_err (apply_op self op) (\<lambda>s. run_ops s ops)"

fun op_wf :: "Player_op \<Rightarrow> bool" where
  "op_wf (Update kp tm) = wf_map tm"
| "op_wf _ = True"

text \<open>
  What one \<open>Player.update\<close> does to everything but position, velocity and facing:
  the counters stay, the invincibility window counts down, the flags are refreshed from
  the power-up list as it stood on entry, and that list is pruned and counted down.
\<close>

definition after_tick :: "Player \<Rightarrow> Player \<Rightarrow> bool" where
  "after_tick self s' =
     (health s' = health self \<and> candies_collected s' = candies_collected self \<and>
      score s' = score self \<and>
      invincible_timer s' =
        (if invincible_timer self > 0 then invincible_timer self - 1 else invincible_timer self) \<and>
      active_powerups s' =
        map (\<lambda>p. p\<lparr>pu_duration := pu_duration p - 1\<rparr>)
          (filter (\<lambda>p. pu_duration p > 0) (active_powerups self)) \<and>
      invisibility_active s' = (INVISIBILITY \<in> pu_type ` set (active_powerups self)) \<and>
      time_slow_active s' = (TIME_SLOW \<in> pu_type ` set (active_powerups self)) \<and>
      double_points_active s' = (DOUBLE_POINTS \<in> pu_type ` set (active_powerups self)) \<and>
      shield_active s' = (SHIELD \<in> pu_type ` set (active_powerups self)))"

text \<open>
  The discipline under which health stays non-negative: damage is dealt only to a
  player with health left, as the game does, which ends the session at health 0; and
  healing amounts are not negative.
\<close>

fun op_guard :: "Player \<Rightarrow> Player_op \<Rightarrow> bool" where
  "op_guard self TakeDamage = (0 < health self)"
| "op_guard self (Heal amount) = (0 \<le> amount)"
| "op_guard self _ = True"

fun guarded_run :: "Player \<Rightarrow> Player_op list \<Rightarrow> bool" where
  "guarded_run self [] = True"
| "guarded_run self (op # ops) =
     (op_guard self op \<and>
      (case apply_op self op of Inl e \<Rightarrow> False | Inr s \<Rightarrow> guarded_run s ops))"

text \<open>
  Concrete inputs: 120 idle updates on the empty 30 by 20 map, which let an
  invincibility window run out; four hits spaced that way; the right key held; a
  SpeedBoost of duration 15 followed by 16 updates with the right key held.
\<close>

definition wait_out :: "Player_op list" where
  "wait_out = replicate 120 (Update no_keys (TileMap_init 30 20))"

definition four_hits :: "Player_op list" where
  "four_hits = TakeDamage # wait_out @ TakeDamage # wait_out @ TakeDamage # wait_out @ [TakeDamage]"

definition key_right :: keys where
  "key_right = no_keys\<lparr>K_d := True\<rparr>"

definition boosted_dash :: "Player_op list" where
  "boosted_dash = AddPowerup SPEED_BOOST 15 # replicate 16 (Update key_right (TileMap_init 30 20))"

text \<open>
  A sequence of \<open>add_powerup\<close> calls.
\<close>

definition add_powerups :: "Player \<Rightarrow> (PowerUpType \<times> int) list \<Rightarrow> Player" where
  "add_powerups self calls = foldl (\<lambda>s (k, d). add_powerup s k d) self calls"

subsection \<open>Ghost (entities.py)\<close>

text \<open>
  The state is the string the source stores. \<open>player_ref\<close> is the attribute
  \<open>_player_ref\<close>, which \<open>update\<close> sets on entry; \<open>None\<close> stands for a ghost that has
  not been updated yet and so lacks the attribute.
\<close>

record Ghost =
  g_x :: real
  g_y :: real
  start_x :: real
  start_y :: real
  g_vx :: real
  g_vy :: real
  g_state :: string
  patrol_points :: "(real \<times> real) list"
  current_patrol_target :: int
  chase_timer :: int
  g_radius :: int
  alpha :: int
  player_ref :: "Player option"

text \<open>\<open>patrol_points or [(x, y)]\<close>: a missing or empty route becomes the spawn point.\<close>

definition Ghost_init :: "real \<Rightarrow> real \<Rightarrow> (real \<times> real) list option \<Rightarrow> Ghost" where
  "Ghost_init x y pts =
     \<lparr>g_x = x, g_y = y, start_x = x, start_y = y, g_vx = 0, g_vy = 0, g_state = ''patrol'',
      patrol_points = (case pts of None \<Rightarrow> [(x, y)] | Some ps \<Rightarrow> if ps = [] then [(x, y)] else ps),
      current_patrol_target = 0, chase_timer = 0, g_radius = 10, alpha = 180,
      player_ref = None\<rparr>"

definition distance_to_player :: "Ghost \<Rightarrow> Player \<Rightarrow> real" where
  "distance_to_player self player = sqrt ((g_x self - p_x player)\<^sup>2 + (g_y self - p_y player)\<^sup>2)"

definition detects :: "Ghost \<Rightarrow> Player \<Rightarrow> bool" where
  "detects self player =
     (distance_to_player self player \<le> GHOST_DETECTION_RADIUS \<and> \<not> invisibility_active player)"

text \<open>State management: the \<open>if\<close>/\<open>elif\<close> chain on the state, with the chase event.\<close>

definition Ghost_state_management :: "Ghost \<Rightarrow> Player \<Rightarrow> Ghost \<times> bool" where
  "Ghost_state_management self player =
     (if g_state self = ''patrol'' then
        (if detects self player
         then (self\<lparr>g_state := ''chase'', chase_timer := 300\<rparr>, True)
         else (self, False))
      else if g_state self = ''chase'' then
        (let s = self\<lparr>chase_timer := chase_timer self - 1\<rparr>
         in if chase_timer s \<le> 0 \<or> distance_to_player self player > GHOST_DETECTION_RADIUS * 1.5
            then (s\<lparr>g_state := ''return''\<rparr>, False) else (s, False))
      else if g_state self = ''return'' then
        (let distance_to_start =
               sqrt ((g_x self - start_x self)\<^sup>2 + (g_y self - start_y self)\<^sup>2)
         in if distance_to_start < 20 then (self\<lparr>g_state := ''patrol''\<rparr>, False)
            else (self, False))
      else (self, False))"

definition Ghost_chase_player :: "Ghost \<Rightarrow> Player \<Rightarrow> error + Ghost" where
  "Ghost_chase_player self player =
     (let dx = p_x player - g_x self;
          dy = p_y player - g_y self;
          distance = sqrt (dx\<^sup>2 + dy\<^sup>2)
      in if distance > 0 then
           (let speed = (if time_slow_active player then GHOST_CHASE_SPEED * 0.4
                         else GHOST_CHASE_SPEED)
            in bind_err (py_truediv dx distance) (\<lambda>qx.
               bind_err (py_truediv dy distance) (\<lambda>qy.
               Inr (self\<lparr>g_vx := qx * speed, g_vy := qy * speed\<rparr>))))
         else Inr self)"

definition Ghost_return_to_start :: "Ghost \<Rightarrow> error + Ghost" where
  "Ghost_return_to_start self =
     (let dx = start_x self - g_x self;
          dy = start_y self - g_y self;
          distance = sqrt (dx\<^sup>2 + dy\<^sup>2)
      in if distance > 0 then
           (case player_ref self of
              None \<Rightarrow> Inl AttributeError
            | Some player \<Rightarrow>
                (let speed = (if time_slow_active player then GHOST_SPEED * 0.4 else GHOST_SPEED)
                 in bind_err (py_truediv dx distance) (\<lambda>qx.
                    bind_err (py_truediv dy distance) (\<lambda>qy.
                    Inr (self\<lparr>g_vx := qx * speed, g_vy := qy * speed\<rparr>)))))
         else Inr (self\<lparr>g_vx := 0, g_vy := 0\<rparr>))"

text \<open>
  The speed of a patrol step: \<open>GHOST_SPEED\<close>, times \<open>0.4\<close> when the player last seen
  has time slow active.
\<close>

definition patrol_speed :: "Ghost \<Rightarrow> real" where
  "patrol_speed self =
     (case player_ref self of
        None \<Rightarrow> GHOST_SPEED
      | Some player \<Rightarrow> if time_slow_active player then GHOST_SPEED * 0.4 else GHOST_SPEED)"

definition Ghost_patrol :: "Ghost \<Rightarrow> error + Ghost" where
  "Ghost_patrol self =
     (if patrol_points self = [] then Inr (self\<lparr>g_vx := 0, g_vy := 0\<rparr>)
      else
        bind_err (py_getitem (patrol_points self) (current_patrol_target self)) (\<lambda>(target_x, target_y).
        let dx = target_x - g_x self;
            dy = target_y - g_y self;
            distance = sqrt (dx\<^sup>2 + dy\<^sup>2)
        in if distance < 10 then
             Inr (self\<lparr>current_patrol_target :=
                    (current_patrol_target self + 1) mod int (length (patrol_points self))\<rparr>)
           else
             (let speed = patrol_speed self
              in bind_err (py_truediv dx distance) (\<lambda>qx.
                 bind_err (py_truediv dy distance) (\<lambda>qy.
                 Inr (self\<lparr>g_vx := qx * speed, g_vy := qy * speed\<rparr>))))))"

text \<open>A ghost tests the one tile under its centre.\<close>

definition Ghost_check_wall_collision :: "Ghost \<Rightarrow> real \<Rightarrow> real \<Rightarrow> TileMap \<Rightarrow> error + bool" where
  "Ghost_check_wall_collision self x y tile_map = is_solid_tile tile_map (tile_of x) (tile_of y)"

definition Ghost_apply_movement :: "Ghost \<Rightarrow> TileMap \<Rightarrow> error + Ghost" where
  "Ghost_apply_movement self tile_map =
     (let new_x = g_x self + g_vx self;
          new_y = g_y self + g_vy self
      in bind_err (Ghost_check_wall_collision self new_x (g_y self) tile_map) (\<lambda>hit_x.
         let s1 = (if \<not> hit_x then self\<lparr>g_x := new_x\<rparr> else self)
         in bind_err (Ghost_check_wall_collision s1 (g_x s1) new_y tile_map) (\<lambda>hit_y.
            Inr (if \<not> hit_y then s1\<lparr>g_y := new_y\<rparr> else s1))))"

definition Ghost_move_by_state :: "Ghost \<Rightarrow> Player \<Rightarrow> error + Ghost" where
  "Ghost_move_by_state self player =
     (if g_state self = ''chase'' then Ghost_chase_player self player
      else if g_state self = ''return'' then Ghost_return_to_start self
      else Ghost_patrol self)"

definition Ghost_update :: "Ghost \<Rightarrow> Player \<Rightarrow> TileMap \<Rightarrow> error + (Ghost \<times> bool)" where
  "Ghost_update self player tile_map =
     (let s0 = self\<lparr>player_ref := Some player\<rparr>;
          (s1, started_chasing) = Ghost_state_management s0 player
      in bind_err (Ghost_move_by_state s1 player) (\<lambda>s2.
         bind_err (Ghost_apply_movement s2 tile_map) (\<lambda>s3.
         Inr (s3, started_chasing))))"

text \<open>A ghost over several ticks, each with the player and the map of that tick.\<close>

fun Ghost_run :: "Ghost \<Rightarrow> (Player \<times> TileMap) list \<Rightarrow> error + Ghost" where
  "Ghost_run self [] = Inr self"
| "Ghost_run self ((player, tile_map) # rest) =
     bind_err (Ghost_update self player tile_map) (\<lambda>(s, started_chasing). Ghost_run s rest)"

text \<open>The waypoint index points into the route, as the constructor and the patrol step keep it.\<close>

definition ghost_inv :: "Ghost \<Rightarrow> bool" where
  "ghost_inv self =
     (0 \<le> current_patrol_target self \<and>
      current_patrol_target self < int (length (patrol_points self)))"


text \<open>The waypoint a patrolling ghost heads for, and the speed a player's time slow leaves it.\<close>

definition current_waypoint :: "Ghost \<Rightarrow> real \<times> real" where
  "current_waypoint self = patrol_points self ! nat (current_patrol_target self)"

definition slowed :: "Player \<Rightarrow> real \<Rightarrow> real" where
  "slowed player speed = (if time_slow_active player then speed * 0.4 else speed)"

text \<open>
  Concrete inputs: a player far from the ghost with time slow active, and a ghost with
  one waypoint 100 pixels to its right.
\<close>

definition patrol_ghost :: Ghost where
  "patrol_ghost = Ghost_init 48 48 (Some [(148, 48)])"

definition slowed_player :: Player where
  "slowed_player =
     (Player_init 400 48)\<lparr>active_powerups :=
         [\<lparr>pu_type = TIME_SLOW, pu_duration = 480, pu_strength = 1.0\<rparr>],
       time_slow_active := True\<rparr>"

subsection \<open>Pseudo-random draws\<close>

text \<open>
  What the code takes from \<^verbatim>\<open>random\<close>, as three streams: the unit-interval floats behind
  \<open>random.uniform\<close>, the indices behind \<open>random.shuffle\<close> and those behind
  \<open>random.choice\<close>.
\<close>

record draws =
  uniform_draws :: "nat \<Rightarrow> real"
  shuffle_draws :: "nat \<Rightarrow> nat"
  choice_draws :: "nat \<Rightarrow> nat"

text \<open>\<open>random.uniform(a, b)\<close> is \<open>a + (b - a) * random()\<close>.\<close>

definition uniform :: "real \<Rightarrow> real \<Rightarrow> real \<Rightarrow> real" where
  "uniform a b u = a + (b - a) * u"

text \<open>
  \<open>random.shuffle\<close>: for \<open>i\<close> from the last index down to 1, swap position \<open>i\<close> with a
  position \<open>j\<close> drawn below \<open>i + 1\<close>.
\<close>

fun shuffle_from :: "(nat \<Rightarrow> nat) \<Rightarrow> nat \<Rightarrow> 'a list \<Rightarrow> 'a list" where
  "shuffle_from rb 0 xs = xs"
| "shuffle_from rb (Suc i) xs =
     (let j = rb (Suc i) mod Suc (Suc i)
      in shuffle_from rb i (xs[Suc i := xs ! j, j := xs ! Suc i]))"

definition shuffle :: "(nat \<Rightarrow> nat) \<Rightarrow> 'a list \<Rightarrow> 'a list" where
  "shuffle rb xs = shuffle_from rb (length xs - 1) xs"

subsection \<open>Candy (entities.py)\<close>

record Candy =
  c_x :: real
  c_y :: real
  c_type :: string
  points :: int
  collected :: bool
  c_radius :: int
  glow_timer :: int

definition Candy_init :: "real \<Rightarrow> real \<Rightarrow> string \<Rightarrow> int \<Rightarrow> Candy" where
  "Candy_init x y candy_type pts =
     \<lparr>c_x = x, c_y = y, c_type = candy_type, points = pts, collected = False, c_radius = 6,
      glow_timer = 0\<rparr>"

definition pickup_particle :: "Candy \<Rightarrow> draws \<Rightarrow> nat \<Rightarrow> Particle" where
  "pickup_particle self dr i =
     (let angle = uniform 0 (2 * pi) (uniform_draws dr (2 * i));
          speed = uniform 1 3 (uniform_draws dr (2 * i + 1));
          vx = cos angle * speed;
          vy = sin angle * speed
      in Particle_init (c_x self) (c_y self) vx vy YELLOW 30)"

definition Candy_collect :: "Candy \<Rightarrow> Player \<Rightarrow> draws \<Rightarrow> Candy \<times> Player \<times> Particle list" where
  "Candy_collect self player dr =
     (if \<not> collected self then
        (let s1 = self\<lparr>collected := True\<rparr>;
             p1 = collect_candy player (points self);
             p2 = (if c_type self = ''cursed'' then add_powerup p1 SPEED_BOOST 300
                   else if c_type self = ''bonus''
                   then heal (p1\<lparr>score := score p1 + points self\<rparr>) 1
                   else p1)
         in (s1, p2, map (pickup_particle self dr) [0..<8]))
      else (self, player, []))"

subsection \<open>ChurchPuzzle (special\_features.py)\<close>

record ChurchPuzzle =
  cp_x :: real
  cp_y :: real
  active :: bool
  completed :: bool
  symbols :: "string list"
  current_order :: "string list"
  target_order :: "string list"
  selected_symbol :: int
  symbol_positions :: "(real \<times> real) list"

definition ChurchPuzzle_init :: "real \<Rightarrow> real \<Rightarrow> draws \<Rightarrow> ChurchPuzzle" where
  "ChurchPuzzle_init x y dr =
     (let syms = [''cross'', ''candle'', ''bible'', ''angel'']
      in \<lparr>cp_x = x, cp_y = y, active = False, completed = False, symbols = syms,
          current_order = shuffle (shuffle_draws dr) syms,
          target_order = [''angel'', ''bible'', ''candle'', ''cross''],
          selected_symbol = 0,
          symbol_positions = map (\<lambda>i. (x - 75 + real i * 50, y)) [0..<length syms]\<rparr>)"

definition ChurchPuzzle_interact ::
    "ChurchPuzzle \<Rightarrow> Player \<Rightarrow> ChurchPuzzle \<times> bool \<times> string \<times> Particle list" where
  "ChurchPuzzle_interact self player =
     (let distance = sqrt ((p_x player - cp_x self)\<^sup>2 + (p_y player - cp_y self)\<^sup>2)
      in if distance > 50 then (self, False, ''Get closer to the altar!'', [])
         else if completed self then (self, False, ''Puzzle already solved!'', [])
         else if \<not> active self
         then (self\<lparr>active := True\<rparr>, True,
               ''Use WASD to rearrange symbols, SPACE to confirm.'', [])
         else (self, False, '''', []))"

text \<open>
  \<open>xs[i], xs[j] = xs[j], xs[i]\<close>: both reads of the right-hand side come first, then
  the two writes from left to right.
\<close>

definition py_swap :: "'a list \<Rightarrow> int \<Rightarrow> int \<Rightarrow> error + 'a list" where
  "py_swap xs i j =
     bind_err (py_getitem xs j) (\<lambda>vj.
     bind_err (py_getitem xs i) (\<lambda>vi.
     bind_err (py_setitem xs i vj) (\<lambda>xs1.
     py_setitem xs1 j vi)))"

text \<open>Move selected symbol: the first part of \<open>handle_input\<close>.\<close>

definition move_selected :: "keys \<Rightarrow> ChurchPuzzle \<Rightarrow> error + ChurchPuzzle" where
  "move_selected kp self =
     (let sel = selected_symbol self
      in if K_a kp \<or> K_LEFT kp then
           (if sel > 0 then
              bind_err (py_swap (current_order self) sel (sel - 1)) (\<lambda>order.
              Inr (self\<lparr>current_order := order, selected_symbol := sel - 1\<rparr>))
            else Inr self)
         else if K_d kp \<or> K_RIGHT kp then
           (if sel < int (length (current_order self)) - 1 then
              bind_err (py_swap (current_order self) sel (sel + 1)) (\<lambda>order.
              Inr (self\<lparr>current_order := order, selected_symbol := sel + 1\<rparr>))
            else Inr self)
         else Inr self)"

definition celebration_particle :: "ChurchPuzzle \<Rightarrow> draws \<Rightarrow> nat \<Rightarrow> Particle" where
  "celebration_particle self dr i =
     (let angle = uniform 0 (2 * pi) (uniform_draws dr (2 * i));
          speed = uniform 2 5 (uniform_draws dr (2 * i + 1));
          vx = cos angle * speed;
          vy = sin angle * speed;
          color = [YELLOW, WHITE, BLUE] ! (choice_draws dr i mod 3)
      in Particle_init (cp_x self) (cp_y self) vx vy color 90)"

definition ChurchPuzzle_handle_input ::
    "keys \<Rightarrow> bool \<Rightarrow> draws \<Rightarrow> ChurchPuzzle \<Rightarrow> error + (ChurchPuzzle \<times> bool \<times> Particle list)" where
  "ChurchPuzzle_handle_input kp space_pressed dr self =
     (if \<not> active self \<or> completed self then Inr (self, False, [])
      else
        bind_err (move_selected kp self) (\<lambda>s1.
        if space_pressed then
          (if current_order s1 = target_order s1 then
             (let s2 = s1\<lparr>completed := True, active := False\<rparr>
              in Inr (s2, True, map (celebration_particle s2 dr) [0..<20]))
           else Inr (s1\<lparr>current_order := shuffle (shuffle_draws dr) (current_order s1)\<rparr>,
                     False, []))
        else Inr (s1, False, [])))"

text \<open>The two operations that change a puzzle, and a sequence of them.\<close>

datatype Puzzle_op = Interact Player | HandleInput keys bool draws

fun puzzle_step :: "ChurchPuzzle \<Rightarrow> Puzzle_op \<Rightarrow> error + ChurchPuzzle" where
  "puzzle_step self (Interact player) = Inr (fst (ChurchPuzzle_interact self player))"
| "puzzle_step self (HandleInput kp space_pressed dr) =
     bind_err (ChurchPuzzle_handle_input kp space_pressed dr self) (\<lambda>(s, done, particles). Inr s)"

fun puzzle_run :: "ChurchPuzzle \<Rightarrow> Puzzle_op list \<Rightarrow> error + ChurchPuzzle" where
  "puzzle_run self [] = Inr self"
| "puzzle_run self (op # ops) = bind_err (puzzle_step self op) (\<lambda>s. puzzle_run s ops)"

text \<open>The selection cursor points at one of the symbols.\<close>

definition selection_ok :: "ChurchPuzzle \<Rightarrow> bool" where
  "selection_ok self =
     (0 \<le> selected_symbol self \<and> selected_symbol self < int (length (current_order self)))"


text \<open>Concrete inputs: all draws zero; a bonus candy; a puzzle one swap from solved.\<close>

definition zero_draws :: draws where
  "zero_draws = \<lparr>uniform_draws = (\<lambda>i. 0), shuffle_draws = (\<lambda>i. 0), choice_draws = (\<lambda>i. 0)\<rparr>"

definition bonus_candy :: Candy where
  "bonus_candy = Candy_init 100 100 ''bonus'' 25"

definition swapped_puzzle :: ChurchPuzzle where
  "swapped_puzzle =
     (ChurchPuzzle_init 200 200 zero_draws)\<lparr>active := True,
        current_order := [''bible'', ''angel'', ''candle'', ''cross''], selected_symbol := 1\<rparr>"

definition key_left :: keys where
  "key_left = no_keys\<lparr>K_a := True\<rparr>"

text \<open>
  Concrete inputs: draws that make the constructor's shuffle leave the puzzle one swap
  from solved; a player at the altar who opens the puzzle and moves the first symbol
  right, which brings the order to the target with the cursor on the second symbol; and
  the puzzle in that state.
\<close>

definition start_draws :: draws where
  "start_draws =
     \<lparr>uniform_draws = (\<lambda>i. 0), shuffle_draws = (\<lambda>i. if i = 2 then 1 else 0),
      choice_draws = (\<lambda>i. 0)\<rparr>"

definition solving_moves :: "Puzzle_op list" where
  "solving_moves = [Interact (Player_init 200 200), HandleInput key_right False zero_draws]"

definition at_target :: ChurchPuzzle where
  "at_target =
     (ChurchPuzzle_init 200 200 start_draws)\<lparr>active := True,
        current_order := [''angel'', ''bible'', ''candle'', ''cross''], selected_symbol := 1\<rparr>"

subsection \<open>TileMap: bounds-checked access\<close>

lemma bind_err_Inr [simp]: "bind_err (Inr v) f = f v"
  by (simp add: bind_err_def)

lemma bind_err_Inl [simp]: "bind_err (Inl e) f = Inl e"
  by (simp add: bind_err_def)

lemma py_getitem_in_range:
  "0 \<le> i \<Longrightarrow> i < int (length xs) \<Longrightarrow> py_getitem xs i = Inr (xs ! nat i)"
  by (simp add: py_getitem_def)

lemma py_setitem_in_range:
  "0 \<le> i \<Longrightarrow> i < int (length xs) \<Longrightarrow> py_setitem xs i v = Inr (xs[nat i := v])"
  by (simp add: py_setitem_def)

lemma wf_map_init: "wf_map (TileMap_init w h)"
  by (simp add: wf_map_def TileMap_init_def list_all_iff)

lemma wf_map_row:
  assumes "wf_map tm" and "in_bounds tm x y"
  shows "nat y < length (tiles tm)" and "length (tiles tm ! nat y) = nat (width tm)"
proof -
  from assms show len: "nat y < length (tiles tm)"
    by (simp add: wf_map_def in_bounds_def)
  from assms(1) have "\<forall>row \<in> set (tiles tm). length row = nat (width tm)"
    by (simp add: wf_map_def list_all_iff)
  with len show "length (tiles tm ! nat y) = nat (width tm)"
    by simp
qed

lemma get_tile_wf:
  assumes "wf_map tm"
  shows "get_tile tm x y = Inr (tile_at tm x y)"
proof (cases "in_bounds tm x y")
  case False
  then show ?thesis by (simp add: get_tile_def tile_at_def)
next
  case True
  note row = wf_map_row [OF assms True]
  from True row(1) have g1: "py_getitem (tiles tm) y = Inr (tiles tm ! nat y)"
    by (intro py_getitem_in_range) (simp_all add: in_bounds_def)
  from True row(2) have g2: "py_getitem (tiles tm ! nat y) x = Inr (tiles tm ! nat y ! nat x)"
    by (intro py_getitem_in_range) (simp_all add: in_bounds_def)
  from True g1 g2 show ?thesis
    by (simp add: get_tile_def tile_at_def)
qed

lemma is_solid_tile_wf:
  "wf_map tm \<Longrightarrow> is_solid_tile tm x y = Inr (tile_at tm x y \<in> set solid_tiles)"
  by (simp add: is_solid_tile_def get_tile_wf)

lemma set_tile_wf:
  assumes "wf_map tm"
  shows "\<exists>tm'. set_tile tm x y k = Inr tm' \<and> wf_map tm' \<and>
           width tm' = width tm \<and> height tm' = height tm"
proof (cases "in_bounds tm x y")
  case False
  with assms show ?thesis by (simp add: set_tile_def)
next
  case True
  note row = wf_map_row [OF assms True]
  let ?row = "tiles tm ! nat y"
  let ?ts = "(tiles tm)[nat y := ?row[nat x := k]]"
  from True row(1) have g1: "py_getitem (tiles tm) y = Inr ?row"
    by (intro py_getitem_in_range) (simp_all add: in_bounds_def)
  from True row(2) have s1: "py_setitem ?row x k = Inr (?row[nat x := k])"
    by (intro py_setitem_in_range) (simp_all add: in_bounds_def)
  from True row(1) have s2: "py_setitem (tiles tm) y (?row[nat x := k]) = Inr ?ts"
    by (intro py_setitem_in_range) (simp_all add: in_bounds_def)
  from True g1 s1 s2 have eq: "set_tile tm x y k = Inr (tm\<lparr>tiles := ?ts\<rparr>)"
    by (simp add: set_tile_def)
  from assms have all: "\<forall>r \<in> set (tiles tm). length r = nat (width tm)"
    by (simp add: wf_map_def list_all_iff)
  have "\<forall>r \<in> set ?ts. length r = nat (width tm)"
  proof
    fix r assume "r \<in> set ?ts"
    then have "r = ?row[nat x := k] \<or> r \<in> set (tiles tm)"
      using set_update_subset_insert [of "tiles tm" "nat y" "?row[nat x := k]"] by auto
    with all row(2) show "length r = nat (width tm)" by auto
  qed
  with assms have "wf_map (tm\<lparr>tiles := ?ts\<rparr>)"
    by (simp add: wf_map_def list_all_iff)
  with eq show ?thesis by simp
qed

text \<open>
  C2. For every pair of integer coordinates outside \<open>[0,width) \<times> [0,height)\<close>,
  \<open>get_tile\<close> returns Wall, \<open>is_solid_tile\<close> returns true and \<open>set_tile\<close> leaves the map
  as it is; and on a map of the shape the constructor builds none of the three raises,
  whatever the integers (negative ones included), and \<open>set_tile\<close> keeps that shape, so
  this holds for every map built by the constructor and changed by \<open>set_tile\<close> only.
\<close>

theorem tilemap_out_of_bounds:
  "(\<not> in_bounds tm x y \<longrightarrow>
      get_tile tm x y = Inr WALL \<and> is_solid_tile tm x y = Inr True \<and>
      set_tile tm x y k = Inr tm) \<and>
   (wf_map tm \<longrightarrow>
      (\<exists>t. get_tile tm x y = Inr t) \<and> (\<exists>b. is_solid_tile tm x y = Inr b) \<and>
      (\<exists>tm'. set_tile tm x y k = Inr tm' \<and> wf_map tm')) \<and>
   wf_map (TileMap_init w h)"
proof (intro conjI impI)
  assume "\<not> in_bounds tm x y"
  then show "get_tile tm x y = Inr WALL" by (simp add: get_tile_def)
  then show "is_solid_tile tm x y = Inr True" by (simp add: is_solid_tile_def solid_tiles_def)
  from \<open>\<not> in_bounds tm x y\<close> show "set_tile tm x y k = Inr tm" by (simp add: set_tile_def)
next
  assume wf: "wf_map tm"
  then show "\<exists>t. get_tile tm x y = Inr t" by (simp add: get_tile_wf)
  from wf show "\<exists>b. is_solid_tile tm x y = Inr b" by (simp add: is_solid_tile_wf)
  from set_tile_wf [OF wf] show "\<exists>tm'. set_tile tm x y k = Inr tm' \<and> wf_map tm'" by blast
next
  show "wf_map (TileMap_init w h)" by (rule wf_map_init)
qed

theorem tilemap_out_of_bounds_witness:
  "\<not> in_bounds (TileMap_init 30 20) (- 1) 25 \<and> wf_map (TileMap_init 30 20) \<and>
   get_tile (TileMap_init 30 20) (- 1) 25 = Inr WALL \<and>
   is_solid_tile (TileMap_init 30 20) (- 1) 25 = Inr True \<and>
   set_tile (TileMap_init 30 20) (- 1) 25 HOUSE = Inr (TileMap_init 30 20)"
proof -
  have nb: "\<not> in_bounds (TileMap_init 30 20) (- 1) 25"
    by (simp add: in_bounds_def TileMap_init_def)
  from nb wf_map_init [of 30 20]
    tilemap_out_of_bounds [where tm = "TileMap_init 30 20" and x = "- 1" and y = 25 and k = HOUSE]
  show ?thesis by blast
qed

subsection \<open>Player: one tick\<close>

lemma poll_step_fst_pos: "0 < fst acc \<Longrightarrow> 0 < fst (poll_step acc pu)"
  by (cases acc) simp

lemma foldl_poll_fst_pos: "0 < fst acc \<Longrightarrow> 0 < fst (foldl poll_step acc ps)"
  by (induction ps arbitrary: acc) (simp_all add: poll_step_fst_pos)

lemma speed_multiplier_pos: "0 < speed_multiplier self"
  by (simp add: speed_multiplier_def poll_powerups_def foldl_poll_fst_pos)

lemma foldl_poll_mult:
  "fst (foldl poll_step (m, i, t, d, s) ps) =
     m * 1.5 ^ length (filter (\<lambda>p. pu_type p = SPEED_BOOST) ps)"
  by (induction ps arbitrary: m i t d s) simp_all

lemma foldl_poll_flags:
  "snd (foldl poll_step (m, i, t, d, s) ps) =
     (i \<or> INVISIBILITY \<in> pu_type ` set ps, t \<or> TIME_SLOW \<in> pu_type ` set ps,
      d \<or> DOUBLE_POINTS \<in> pu_type ` set ps, s \<or> SHIELD \<in> pu_type ` set ps)"
  by (induction ps arbitrary: m i t d s) auto

lemma distinct_filter_le1:
  "distinct (map f xs) \<Longrightarrow> length (filter (\<lambda>x. f x = k) xs) = (if k \<in> f ` set xs then 1 else 0)"
  by (induction xs) auto

lemma speed_multiplier_distinct:
  "distinct (map pu_type (active_powerups self)) \<Longrightarrow>
   speed_multiplier self = (if SPEED_BOOST \<in> pu_type ` set (active_powerups self) then 1.5 else 1.0)"
  by (simp add: speed_multiplier_def poll_powerups_def foldl_poll_mult distinct_filter_le1)

lemma rescale_norm:
  fixes a b m :: real
  assumes "0 < sqrt (a\<^sup>2 + b\<^sup>2)" and "0 \<le> m"
  shows "sqrt ((a / sqrt (a\<^sup>2 + b\<^sup>2) * m)\<^sup>2 + (b / sqrt (a\<^sup>2 + b\<^sup>2) * m)\<^sup>2) = m"
proof -
  define t where "t = sqrt (a\<^sup>2 + b\<^sup>2)"
  have t2: "t\<^sup>2 = a\<^sup>2 + b\<^sup>2" by (simp add: t_def)
  from assms(1) have "0 < t" by (simp only: t_def)
  then have tnz: "t\<^sup>2 \<noteq> 0" by simp
  have "(a / t * m)\<^sup>2 + (b / t * m)\<^sup>2 = (a\<^sup>2 * m\<^sup>2 + b\<^sup>2 * m\<^sup>2) / t\<^sup>2"
    by (simp add: power_mult_distrib power_divide add_divide_distrib)
  also have "\<dots> = (t\<^sup>2 * m\<^sup>2) / t\<^sup>2"
    by (simp only: t2 distrib_right)
  also have "\<dots> = m\<^sup>2" using tnz by simp
  finally have "sqrt ((a / t * m)\<^sup>2 + (b / t * m)\<^sup>2) = \<bar>m\<bar>" by simp
  with assms(2) show ?thesis by (simp add: t_def)
qed

lemma limit_speed_result:
  assumes "0 \<le> max_speed"
  shows "\<exists>s'. limit_speed max_speed self = Inr s' \<and>
           sqrt ((p_vx s')\<^sup>2 + (p_vy s')\<^sup>2) \<le> max_speed \<and>
           s' = self\<lparr>p_vx := p_vx s', p_vy := p_vy s'\<rparr>"
proof (cases "sqrt ((p_vx self)\<^sup>2 + (p_vy self)\<^sup>2) > max_speed")
  case False
  then show ?thesis by (simp add: limit_speed_def Let_def)
next
  case True
  let ?s = "sqrt ((p_vx self)\<^sup>2 + (p_vy self)\<^sup>2)"
  from True assms have pos: "0 < ?s" by linarith
  then have nz: "?s \<noteq> 0" by linarith
  let ?r = "self\<lparr>p_vx := p_vx self / ?s * max_speed, p_vy := p_vy self / ?s * max_speed\<rparr>"
  from True nz have eq: "limit_speed max_speed self = Inr ?r"
    by (simp add: limit_speed_def Let_def py_truediv_def)
  have "sqrt ((p_vx ?r)\<^sup>2 + (p_vy ?r)\<^sup>2) = max_speed"
    using rescale_norm [OF pos assms] by simp
  with eq show ?thesis by simp
qed

lemma corners_solid_wf:
  "wf_map tm \<Longrightarrow> \<exists>b. corners_solid tm cs = Inr b"
  by (induction cs) (auto simp: is_solid_tile_wf)

lemma Player_check_wall_collision_wf:
  "wf_map tm \<Longrightarrow> \<exists>b. Player_check_wall_collision self x y tm = Inr b"
  unfolding Player_check_wall_collision_def Let_def by (rule corners_solid_wf)

lemma norm_drop_x: "sqrt (0\<^sup>2 + b\<^sup>2) \<le> sqrt (a\<^sup>2 + b\<^sup>2)" for a b :: real
  by simp

lemma norm_drop_y: "sqrt (a\<^sup>2 + 0\<^sup>2) \<le> sqrt (a\<^sup>2 + b\<^sup>2)" for a b :: real
  by simp

lemma Player_move_result:
  assumes "wf_map tm"
  shows "\<exists>s'. Player_move tm self = Inr s' \<and>
           sqrt ((p_vx s')\<^sup>2 + (p_vy s')\<^sup>2) \<le> sqrt ((p_vx self)\<^sup>2 + (p_vy self)\<^sup>2) \<and>
           s' = self\<lparr>p_x := p_x s', p_y := p_y s', p_vx := p_vx s', p_vy := p_vy s'\<rparr>"
proof -
  obtain hx where hx: "Player_check_wall_collision self (p_x self + p_vx self) (p_y self) tm = Inr hx"
    using Player_check_wall_collision_wf [OF assms] by blast
  define s1 where "s1 = (if \<not> hx then self\<lparr>p_x := p_x self + p_vx self\<rparr> else self\<lparr>p_vx := 0\<rparr>)"
  obtain hy where hy: "Player_check_wall_collision s1 (p_x s1) (p_y self + p_vy self) tm = Inr hy"
    using Player_check_wall_collision_wf [OF assms] by blast
  define s2 where "s2 = (if \<not> hy then s1\<lparr>p_y := p_y self + p_vy self\<rparr> else s1\<lparr>p_vy := 0\<rparr>)"
  from hx hy have eq: "Player_move tm self = Inr s2"
    by (simp add: Player_move_def Let_def s1_def s2_def)
  have n1: "sqrt ((p_vx s1)\<^sup>2 + (p_vy s1)\<^sup>2) \<le> sqrt ((p_vx self)\<^sup>2 + (p_vy self)\<^sup>2)"
    by (simp add: s1_def)
  have n2: "sqrt ((p_vx s2)\<^sup>2 + (p_vy s2)\<^sup>2) \<le> sqrt ((p_vx s1)\<^sup>2 + (p_vy s1)\<^sup>2)"
    by (simp add: s2_def)
  have fr: "s2 = self\<lparr>p_x := p_x s2, p_y := p_y s2, p_vx := p_vx s2, p_vy := p_vy s2\<rparr>"
    by (simp add: s2_def s1_def)
  from eq n1 n2 fr show ?thesis by (intro exI [of _ s2]) simp
qed


lemma apply_input_frame:
  "apply_input kp self = self\<lparr>p_vx := p_vx (apply_input kp self), p_vy := p_vy (apply_input kp self)\<rparr>"
  by (simp add: apply_input_def Let_def split: prod.splits)

lemma store_powerup_states_fields:
  "health (store_powerup_states s) = health s"
  "candies_collected (store_powerup_states s) = candies_collected s"
  "score (store_powerup_states s) = score s"
  "invincible_timer (store_powerup_states s) = invincible_timer s"
  "active_powerups (store_powerup_states s) = active_powerups s"
  "p_vx (store_powerup_states s) = p_vx s"
  "p_vy (store_powerup_states s) = p_vy s"
  "invisibility_active (store_powerup_states s) = (INVISIBILITY \<in> pu_type ` set (active_powerups s))"
  "time_slow_active (store_powerup_states s) = (TIME_SLOW \<in> pu_type ` set (active_powerups s))"
  "double_points_active (store_powerup_states s) = (DOUBLE_POINTS \<in> pu_type ` set (active_powerups s))"
  "shield_active (store_powerup_states s) = (SHIELD \<in> pu_type ` set (active_powerups s))"
  using foldl_poll_flags [of 1 False False False False "active_powerups s"]
  by (auto simp: store_powerup_states_def poll_powerups_def split: prod.splits)

lemma Player_update_result:
  assumes wf: "wf_map tm"
  shows "\<exists>s'. Player_update kp tm self = Inr s' \<and> after_tick self s' \<and>
           sqrt ((p_vx s')\<^sup>2 + (p_vy s')\<^sup>2) \<le> PLAYER_MAX_SPEED * speed_multiplier self"
proof -
  define s1 where "s1 = apply_input kp self"
  define s2 where "s2 = store_powerup_states s1"
  define ms where "ms = PLAYER_MAX_SPEED * speed_multiplier s1"
  have f1: "s1 = self\<lparr>p_vx := p_vx s1, p_vy := p_vy s1\<rparr>"
    unfolding s1_def by (rule apply_input_frame)
  have ap1: "active_powerups s1 = active_powerups self"
    by (subst f1) simp
  then have ms_eq: "ms = PLAYER_MAX_SPEED * speed_multiplier self"
    by (simp add: ms_def speed_multiplier_def)
  have "0 \<le> ms"
    using speed_multiplier_pos [of s1] by (simp add: ms_def PLAYER_MAX_SPEED_def)
  from limit_speed_result [OF this, of s2]
  obtain s3 where s3: "limit_speed ms s2 = Inr s3"
    and n3: "sqrt ((p_vx s3)\<^sup>2 + (p_vy s3)\<^sup>2) \<le> ms"
    and f3: "s3 = s2\<lparr>p_vx := p_vx s3, p_vy := p_vy s3\<rparr>" by blast
  from Player_move_result [OF wf, of s3]
  obtain s4 where s4: "Player_move tm s3 = Inr s4"
    and n4: "sqrt ((p_vx s4)\<^sup>2 + (p_vy s4)\<^sup>2) \<le> sqrt ((p_vx s3)\<^sup>2 + (p_vy s3)\<^sup>2)"
    and f4: "s4 = s3\<lparr>p_x := p_x s4, p_y := p_y s4, p_vx := p_vx s4, p_vy := p_vy s4\<rparr>" by blast
  define s5 where "s5 = Player_update_powerups (tick_invincibility (update_facing s4))"
  from s3 s4 have eq: "Player_update kp tm self = Inr s5"
    by (simp add: Player_update_def Let_def s1_def [symmetric] s2_def [symmetric]
        ms_def [symmetric] s5_def)
  have v5: "p_vx s5 = p_vx s4" "p_vy s5 = p_vy s4"
    by (simp_all add: s5_def Player_update_powerups_def tick_invincibility_def update_facing_def)
  have g1: "health s1 = health self" "candies_collected s1 = candies_collected self"
    "score s1 = score self" "invincible_timer s1 = invincible_timer self"
    by (subst f1, simp)+
  have g4: "health s4 = health s2" "candies_collected s4 = candies_collected s2"
    "score s4 = score s2" "invincible_timer s4 = invincible_timer s2"
    "active_powerups s4 = active_powerups s2"
    "invisibility_active s4 = invisibility_active s2"
    "time_slow_active s4 = time_slow_active s2"
    "double_points_active s4 = double_points_active s2"
    "shield_active s4 = shield_active s2"
    by (subst f4, subst f3, simp)+
  have "after_tick self s5"
    unfolding after_tick_def s5_def
    by (simp add: Player_update_powerups_def tick_invincibility_def update_facing_def g4
        s2_def store_powerup_states_fields g1 ap1)
  moreover from n3 n4 have "sqrt ((p_vx s4)\<^sup>2 + (p_vy s4)\<^sup>2) \<le> ms"
    by (rule order_trans [rotated])
  then have "sqrt ((p_vx s5)\<^sup>2 + (p_vy s5)\<^sup>2) \<le> PLAYER_MAX_SPEED * speed_multiplier self"
    by (simp only: v5 ms_eq)
  ultimately show ?thesis using eq by blast
qed

lemma run_ops_append:
  "run_ops self (xs @ ys) = bind_err (run_ops self xs) (\<lambda>s. run_ops s ys)"
  by (induction xs arbitrary: self) (auto simp: bind_err_def split: sum.splits)

lemma run_ops_invariant:
  assumes "P self" and "list_all op_wf ops"
    and step: "\<And>s op. P s \<Longrightarrow> op_wf op \<Longrightarrow> \<exists>s'. apply_op s op = Inr s' \<and> P s'"
  shows "\<exists>s'. run_ops self ops = Inr s' \<and> P s'"
  using assms(1,2)
proof (induction ops arbitrary: self)
  case Nil
  then show ?case by simp
next
  case (Cons op ops)
  from Cons.prems step [of self op] obtain s where s: "apply_op self op = Inr s" "P s"
    by auto
  from Cons.IH [OF s(2)] Cons.prems(2) s(1) show ?case by simp
qed

lemma apply_op_total:
  "op_wf op \<Longrightarrow> \<exists>s'. apply_op self op = Inr s'"
  using Player_update_result by (cases op) (simp_all, blast)

lemma apply_op_distinct:
  assumes "distinct (map pu_type (active_powerups self))" and "op_wf op"
  shows "\<exists>s'. apply_op self op = Inr s' \<and> distinct (map pu_type (active_powerups s'))"
proof (cases op)
  case (Update kp tm)
  with assms(2) Player_update_result [of tm kp self]
  obtain s' where s': "Player_update kp tm self = Inr s'" "after_tick self s'" by auto
  have "map pu_type (active_powerups s') =
          map pu_type (filter (\<lambda>p. pu_duration p > 0) (active_powerups self))"
    using s'(2) by (simp add: after_tick_def comp_def)
  with assms(1) have "distinct (map pu_type (active_powerups s'))"
    by (simp add: distinct_map_filter)
  with s'(1) Update show ?thesis by simp
next
  case (AddPowerup k d)
  have "distinct (map pu_type (filter (\<lambda>p. pu_type p \<noteq> k) (active_powerups self)))"
    using assms(1) by (rule distinct_map_filter)
  then show ?thesis using AddPowerup by (auto simp: add_powerup_def)
qed (use assms in \<open>simp_all add: take_damage_def collect_candy_def heal_def Let_def\<close>)

lemma apply_op_health_le:
  assumes "health self \<le> 5" and "op_wf op"
  shows "\<exists>s'. apply_op self op = Inr s' \<and> health s' \<le> 5"
proof (cases op)
  case (Update kp tm)
  with assms(2) Player_update_result [of tm kp self]
  obtain s' where s': "Player_update kp tm self = Inr s'" "after_tick self s'" by auto
  with assms(1) Update show ?thesis by (simp add: after_tick_def)
qed (use assms in \<open>simp_all add: take_damage_def collect_candy_def heal_def add_powerup_def Let_def\<close>)

lemma apply_op_health_ge:
  assumes "0 \<le> health self" and "op_guard self op" and "op_wf op"
    and "apply_op self op = Inr s'"
  shows "0 \<le> health s'"
proof (cases op)
  case (Update kp tm)
  with Player_update_result [of tm kp self] assms(3,4)
  have "after_tick self s'" by auto
  with assms(1) show ?thesis by (simp add: after_tick_def)
qed (use assms in \<open>auto simp add: take_damage_def collect_candy_def heal_def add_powerup_def Let_def split: if_splits\<close>)

lemma guarded_run_health:
  "list_all op_wf ops \<Longrightarrow> guarded_run self ops \<Longrightarrow> 0 \<le> health self \<Longrightarrow>
   run_ops self ops = Inr s' \<Longrightarrow> 0 \<le> health s'"
proof (induction ops arbitrary: self)
  case Nil
  then show ?case by simp
next
  case (Cons op ops)
  from Cons.prems(2) obtain s where s: "apply_op self op = Inr s" "guarded_run s ops"
    and g: "op_guard self op"
    by (auto split: sum.splits)
  from apply_op_health_ge [OF Cons.prems(3) g _ s(1)] Cons.prems(1) have "0 \<le> health s" by simp
  with Cons.IH [of s] Cons.prems(1,4) s show ?case by simp
qed

lemma run_updates:
  assumes "wf_map tm" and "active_powerups self = []" and "0 \<le> invincible_timer self"
  shows "\<exists>s'. run_ops self (replicate n (Update kp tm)) = Inr s' \<and>
           health s' = health self \<and> active_powerups s' = [] \<and>
           invincible_timer s' = max 0 (invincible_timer self - int n) \<and>
           (0 < n \<longrightarrow> \<not> shield_active s')"
  using assms(2,3)
proof (induction n arbitrary: self)
  case 0
  then show ?case by simp
next
  case (Suc n)
  from Player_update_result [OF assms(1), of kp self]
  obtain s where s: "Player_update kp tm self = Inr s" "after_tick self s" by blast
  from s(2) Suc.prems have s_props: "active_powerups s = []" "0 \<le> invincible_timer s"
    "health s = health self" "\<not> shield_active s"
    "invincible_timer s = max 0 (invincible_timer self - 1)"
    by (auto simp: after_tick_def)
  from Suc.IH [OF s_props(1,2)]
  obtain s' where s': "run_ops s (replicate n (Update kp tm)) = Inr s'"
    "health s' = health s" "active_powerups s' = []"
    "invincible_timer s' = max 0 (invincible_timer s - int n)"
    "0 < n \<longrightarrow> \<not> shield_active s'" by blast
  have sh: "\<not> shield_active s'"
  proof (cases n)
    case 0
    with s' s_props show ?thesis by simp
  next
    case (Suc m)
    with s' show ?thesis by simp
  qed
  from s' s_props s(1) sh show ?case by (auto simp: max_def)
qed

lemma hit_then_wait:
  assumes "invincible_timer self = 0" and "\<not> shield_active self" and "active_powerups self = []"
  shows "\<exists>s'. run_ops self (TakeDamage # wait_out) = Inr s' \<and> health s' = health self - 1 \<and>
           invincible_timer s' = 0 \<and> \<not> shield_active s' \<and> active_powerups s' = []"
proof -
  define s1 where "s1 = fst (take_damage self)"
  from assms have p1: "health s1 = health self - 1" "invincible_timer s1 = 120"
    "active_powerups s1 = []"
    by (simp_all add: s1_def take_damage_def INVINCIBILITY_DURATION_def)
  have p2: "0 \<le> invincible_timer s1" using p1 by simp
  from run_updates [where tm = "TileMap_init 30 20" and n = 120 and kp = no_keys,
      OF wf_map_init p1(3) p2] p1
  show ?thesis
    by (auto simp: wait_out_def s1_def)
qed

text \<open>
  C6, as stated, fails: \<open>take_damage\<close> has no floor. Four hits, each after the
  invincibility window of the one before has run out over 120 updates, take a new
  player from health 3 to \<open>-1\<close>.
\<close>

theorem four_hits_health:
  "map_sum id health (run_ops (Player_init 48 48) four_hits) = Inr (- 1)"
proof -
  let ?s0 = "Player_init 48 48"
  have i0: "invincible_timer ?s0 = 0" "\<not> shield_active ?s0" "active_powerups ?s0 = []"
    "health ?s0 = 3"
    by (simp_all add: Player_init_def PLAYER_MAX_HEALTH_def)
  from hit_then_wait [OF i0(1-3)] obtain s1 where
    s1: "run_ops ?s0 (TakeDamage # wait_out) = Inr s1" "health s1 = health ?s0 - 1"
      "invincible_timer s1 = 0" "\<not> shield_active s1" "active_powerups s1 = []" by blast
  from hit_then_wait [OF s1(3-5)] obtain s2 where
    s2: "run_ops s1 (TakeDamage # wait_out) = Inr s2" "health s2 = health s1 - 1"
      "invincible_timer s2 = 0" "\<not> shield_active s2" "active_powerups s2 = []" by blast
  from hit_then_wait [OF s2(3-5)] obtain s3 where
    s3: "run_ops s2 (TakeDamage # wait_out) = Inr s3" "health s3 = health s2 - 1"
      "invincible_timer s3 = 0" "\<not> shield_active s3" "active_powerups s3 = []" by blast
  have split: "four_hits = (TakeDamage # wait_out) @ (TakeDamage # wait_out) @
      (TakeDamage # wait_out) @ [TakeDamage]"
    by (simp add: four_hits_def)
  have "run_ops ?s0 four_hits = Inr (fst (take_damage s3))"
    unfolding split run_ops_append using s1(1) s2(1) s3(1) by simp
  moreover have "health (fst (take_damage s3)) = - 1"
    using s3 s2 s1 i0 by (simp add: take_damage_def)
  ultimately show ?thesis by simp
qed


lemma distinct_kinds_reachable:
  assumes "list_all op_wf ops"
  shows "\<exists>s. run_ops (Player_init x y) ops = Inr s \<and> distinct (map pu_type (active_powerups s))"
proof (rule run_ops_invariant [OF _ assms])
  show "distinct (map pu_type (active_powerups (Player_init x y)))"
    by (simp add: Player_init_def)
qed (rule apply_op_distinct)

text \<open>
  C1. For every player state: \<open>take_damage\<close> called while \<open>invincible_timer > 0\<close> or
  while the shield is active (the \<open>shield_active\<close> flag, which is what the method reads)
  leaves the player as it is and returns false; called in any other state it takes
  exactly one from \<open>health\<close>, sets \<open>invincible_timer\<close> to \<open>INVINCIBILITY_DURATION\<close>
  and returns true. The flag is the one \<open>Player.update\<close> refreshes: after an update it
  holds exactly when a Shield power-up was in the list that update polled.
\<close>

theorem take_damage_behaviour:
  "(0 < invincible_timer self \<or> shield_active self \<longrightarrow> take_damage self = (self, False)) \<and>
   (\<not> (0 < invincible_timer self \<or> shield_active self) \<longrightarrow>
      take_damage self =
        (self\<lparr>health := health self - 1, invincible_timer := INVINCIBILITY_DURATION\<rparr>, True)) \<and>
   (wf_map tm \<longrightarrow>
      (\<exists>s'. Player_update kp tm self = Inr s' \<and>
         shield_active s' = (SHIELD \<in> pu_type ` set (active_powerups self))))"
proof (intro conjI impI)
  assume "0 < invincible_timer self \<or> shield_active self"
  then show "take_damage self = (self, False)"
    by (auto simp: take_damage_def)
next
  assume "\<not> (0 < invincible_timer self \<or> shield_active self)"
  then show "take_damage self =
      (self\<lparr>health := health self - 1, invincible_timer := INVINCIBILITY_DURATION\<rparr>, True)"
    by (simp add: take_damage_def)
next
  assume "wf_map tm"
  from Player_update_result [OF this, of kp self]
  show "\<exists>s'. Player_update kp tm self = Inr s' \<and>
         shield_active s' = (SHIELD \<in> pu_type ` set (active_powerups self))"
    by (auto simp: after_tick_def)
qed

theorem take_damage_behaviour_witness:
  "0 < invincible_timer (fst (take_damage (Player_init 48 48))) \<and>
   take_damage (fst (take_damage (Player_init 48 48))) =
     (fst (take_damage (Player_init 48 48)), False) \<and>
   \<not> (0 < invincible_timer (Player_init 48 48) \<or> shield_active (Player_init 48 48)) \<and>
   health (fst (take_damage (Player_init 48 48))) = 2 \<and>
   snd (take_damage (Player_init 48 48)) \<and>
   wf_map (TileMap_init 30 20) \<and>
   (\<exists>s'. Player_update no_keys (TileMap_init 30 20) (add_powerup (Player_init 48 48) SHIELD 900)
            = Inr s' \<and> shield_active s')"
proof -
  let ?p = "Player_init 48 48"
  let ?q = "fst (take_damage ?p)"
  have fresh: "\<not> (0 < invincible_timer ?p \<or> shield_active ?p)"
    by (simp add: Player_init_def)
  have hit: "take_damage ?p =
      (?p\<lparr>health := health ?p - 1, invincible_timer := INVINCIBILITY_DURATION\<rparr>, True)"
    using fresh take_damage_behaviour [of ?p] by blast
  have inv: "0 < invincible_timer ?q"
    by (simp add: hit INVINCIBILITY_DURATION_def)
  have again: "take_damage ?q = (?q, False)"
    using inv take_damage_behaviour [of ?q] by blast
  have h2: "health ?q = 2" "snd (take_damage ?p)"
    by (simp_all add: hit) (simp add: Player_init_def PLAYER_MAX_HEALTH_def)
  have "SHIELD \<in> pu_type ` set (active_powerups (add_powerup ?p SHIELD 900))"
    by (simp add: add_powerup_def)
  with wf_map_init [of 30 20]
    take_damage_behaviour [of "add_powerup ?p SHIELD 900" "TileMap_init 30 20" no_keys]
  have "\<exists>s'. Player_update no_keys (TileMap_init 30 20) (add_powerup ?p SHIELD 900) = Inr s' \<and>
          shield_active s'" by auto
  with fresh inv again h2 wf_map_init [of 30 20] show ?thesis by blast
qed

text \<open>
  C7. \<open>add_powerup\<close> with a kind that is already active removes the old entry and
  installs one entry of that kind with the new duration, leaving the entries of other
  kinds as they were; so after any sequence of \<open>add_powerup\<close> calls on a new player the
  list never holds two entries of one kind.
\<close>

theorem add_powerup_no_stacking:
  "filter (\<lambda>p. pu_type p = k) (active_powerups (add_powerup self k d)) =
     [\<lparr>pu_type = k, pu_duration = d, pu_strength = 1.0\<rparr>] \<and>
   filter (\<lambda>p. pu_type p \<noteq> k) (active_powerups (add_powerup self k d)) =
     filter (\<lambda>p. pu_type p \<noteq> k) (active_powerups self) \<and>
   distinct (map pu_type (active_powerups (add_powerups (Player_init x y) calls)))"
proof (intro conjI)
  show "filter (\<lambda>p. pu_type p = k) (active_powerups (add_powerup self k d)) =
     [\<lparr>pu_type = k, pu_duration = d, pu_strength = 1.0\<rparr>]"
    by (simp add: add_powerup_def)
  show "filter (\<lambda>p. pu_type p \<noteq> k) (active_powerups (add_powerup self k d)) =
     filter (\<lambda>p. pu_type p \<noteq> k) (active_powerups self)"
    by (simp add: add_powerup_def)
  have step: "distinct (map pu_type (active_powerups (add_powerup s k' d')))"
    if "distinct (map pu_type (active_powerups s))" for s k' d'
    using distinct_map_filter [OF that, of "\<lambda>p. pu_type p \<noteq> k'"]
    by (auto simp: add_powerup_def)
  have "distinct (map pu_type (active_powerups (add_powerups s calls)))"
    if "distinct (map pu_type (active_powerups s))" for s
    using that unfolding add_powerups_def
  proof (induction calls arbitrary: s)
    case Nil
    then show ?case by simp
  next
    case (Cons c cs)
    obtain k' d' where c: "c = (k', d')" by (cases c)
    from Cons.IH [OF step [OF Cons.prems, of k' d']] c show ?case by simp
  qed
  then show "distinct (map pu_type (active_powerups (add_powerups (Player_init x y) calls)))"
    by (simp add: Player_init_def)
qed

theorem add_powerup_no_stacking_witness:
  "map (\<lambda>p. (pu_type p, pu_duration p))
     (active_powerups (add_powerups (Player_init 48 48)
        [(SHIELD, 900), (SPEED_BOOST, 420), (SHIELD, 100)])) =
     [(SPEED_BOOST, 420), (SHIELD, 100)] \<and>
   filter (\<lambda>p. pu_type p = SHIELD)
     (active_powerups (add_powerup (add_powerups (Player_init 48 48)
        [(SHIELD, 900), (SPEED_BOOST, 420)]) SHIELD 100)) =
     [\<lparr>pu_type = SHIELD, pu_duration = 100, pu_strength = 1.0\<rparr>] \<and>
   distinct (map pu_type (active_powerups (add_powerups (Player_init 48 48)
        [(SHIELD, 900), (SPEED_BOOST, 420), (SHIELD, 100)])))"
  using add_powerup_no_stacking [of SHIELD
      "add_powerups (Player_init 48 48) [(SHIELD, 900), (SPEED_BOOST, 420)]" 100 48 48
      "[(SHIELD, 900), (SPEED_BOOST, 420), (SHIELD, 100)]"]
  by (simp add: add_powerups_def add_powerup_def Player_init_def)


text \<open>
  C3, amended. For every player state \<open>s\<close> that calls of the public operations reach from
  a new player, after one \<open>Player.update\<close> the magnitude of the velocity is at most
  \<open>PLAYER_MAX_SPEED \<times> (1.5 if a SpeedBoost is in the active list of s, else 1.0)\<close>, up to
  floating-point rounding (a relative slack of \<open>10\<^sup>-\<^sup>9\<close>): the list is read as it stands
  when the update is called, before the update prunes it.
\<close>

theorem player_speed_bound:
  assumes "list_all op_wf ops" and "wf_map tm"
  shows "\<exists>s s'. run_ops (Player_init x y) ops = Inr s \<and> Player_update kp tm s = Inr s' \<and>
           sqrt ((p_vx s')\<^sup>2 + (p_vy s')\<^sup>2) \<le>
             PLAYER_MAX_SPEED *
               (if SPEED_BOOST \<in> pu_type ` set (active_powerups s) then 1.5 else 1.0) *
               (1 + rounding_tolerance)"
proof -
  from distinct_kinds_reachable [OF assms(1)]
  obtain s where s: "run_ops (Player_init x y) ops = Inr s"
    "distinct (map pu_type (active_powerups s))" by blast
  from Player_update_result [OF assms(2), of kp s]
  obtain s' where s': "Player_update kp tm s = Inr s'"
    "sqrt ((p_vx s')\<^sup>2 + (p_vy s')\<^sup>2) \<le> PLAYER_MAX_SPEED * speed_multiplier s" by blast
  let ?limit = "PLAYER_MAX_SPEED *
      (if SPEED_BOOST \<in> pu_type ` set (active_powerups s) then 1.5 else 1.0)"
  from s'(2) have exact: "sqrt ((p_vx s')\<^sup>2 + (p_vy s')\<^sup>2) \<le> ?limit"
    by (simp only: speed_multiplier_distinct [OF s(2)])
  have "0 \<le> ?limit"
    by (simp add: PLAYER_MAX_SPEED_def)
  then have "?limit \<le> ?limit * (1 + rounding_tolerance)"
    by (simp add: rounding_tolerance_def mult_le_cancel_left1)
  with exact have "sqrt ((p_vx s')\<^sup>2 + (p_vy s')\<^sup>2) \<le> ?limit * (1 + rounding_tolerance)"
    by (rule order_trans)
  with s(1) s'(1) show ?thesis by blast
qed

theorem player_speed_bound_witness:
  "list_all op_wf [AddPowerup SPEED_BOOST 420, Update key_right (TileMap_init 30 20)] \<and>
   wf_map (TileMap_init 30 20) \<and>
   (\<exists>s s'. run_ops (Player_init 48 48)
              [AddPowerup SPEED_BOOST 420, Update key_right (TileMap_init 30 20)] = Inr s \<and>
      Player_update key_right (TileMap_init 30 20) s = Inr s' \<and>
      sqrt ((p_vx s')\<^sup>2 + (p_vy s')\<^sup>2) \<le>
        PLAYER_MAX_SPEED *
          (if SPEED_BOOST \<in> pu_type ` set (active_powerups s) then 1.5 else 1.0) *
          (1 + rounding_tolerance))"
proof -
  have h1: "list_all op_wf [AddPowerup SPEED_BOOST 420, Update key_right (TileMap_init 30 20)]"
    by (simp add: wf_map_init)
  from h1 wf_map_init [of 30 20] player_speed_bound [where x = 48 and y = 48 and kp = key_right, OF h1 wf_map_init [of 30 20]]
  show ?thesis by blast
qed

lemma empty_map_tile:
  assumes "in_bounds (TileMap_init w h) tx ty"
  shows "tile_at (TileMap_init w h) tx ty = EMPTY"
proof -
  from assms have "nat ty < nat h" "nat tx < nat w"
    by (simp_all add: in_bounds_def TileMap_init_def)
  with assms show ?thesis
    by (simp add: tile_at_def TileMap_init_def)
qed

lemma empty_map_not_solid:
  "in_bounds (TileMap_init w h) tx ty \<Longrightarrow> is_solid_tile (TileMap_init w h) tx ty = Inr False"
  by (simp add: is_solid_tile_wf [OF wf_map_init] empty_map_tile solid_tiles_def)

lemma tile_of_in_range:
  assumes "0 \<le> v" and "v < 960"
  shows "0 \<le> tile_of v" and "tile_of v < 30"
proof -
  from assms(1) show "0 \<le> tile_of v"
    by (simp add: tile_of_def TILE_SIZE_def)
  from assms(2) have "v / 32 < 30" by simp
  then show "tile_of v < 30"
    by (simp add: tile_of_def TILE_SIZE_def floor_less_iff)
qed

lemma open_field:
  assumes "0 \<le> cx" "cx < 960" "0 \<le> cy" "cy < 640"
  shows "is_solid_tile (TileMap_init 30 20) (tile_of cx) (tile_of cy) = Inr False"
proof -
  from assms(4) have "cy / 32 < 20" by simp
  then have "tile_of cy < 20"
    by (simp add: tile_of_def TILE_SIZE_def floor_less_iff)
  moreover from assms(3) have "0 \<le> tile_of cy"
    by (simp add: tile_of_def TILE_SIZE_def)
  ultimately have "in_bounds (TileMap_init 30 20) (tile_of cx) (tile_of cy)"
    using tile_of_in_range [OF assms(1,2)] by (simp add: in_bounds_def TileMap_init_def)
  then show ?thesis by (rule empty_map_not_solid)
qed

lemma dash_step:
  assumes vy: "p_vy s = 0" and y: "p_y s = 48" and vx: "0 \<le> p_vx s" "p_vx s \<le> 4.3"
    and x: "48 \<le> p_x s" "p_x s \<le> 200" and r: "p_radius s = 12"
    and pu: "active_powerups s = [\<lparr>pu_type = SPEED_BOOST, pu_duration = d, pu_strength = 1.0\<rparr>]"
  shows "\<exists>s'. Player_update key_right (TileMap_init 30 20) s = Inr s' \<and>
           p_vx s' = p_vx s + 0.2 \<and> p_vy s' = 0 \<and> p_y s' = 48 \<and>
           p_x s' = p_x s + p_vx s + 0.2 \<and> p_radius s' = 12 \<and>
           active_powerups s' =
             (if 0 < d then [\<lparr>pu_type = SPEED_BOOST, pu_duration = d - 1, pu_strength = 1.0\<rparr>]
              else [])"
proof -
  let ?tm = "TileMap_init 30 20"
  define s1 where "s1 = apply_input key_right s"
  have v1: "p_vx s1 = p_vx s + 0.2" "p_vy s1 = 0" "p_x s1 = p_x s" "p_y s1 = 48" "p_radius s1 = 12"
    "active_powerups s1 = active_powerups s"
    using vy y r
    by (simp_all add: s1_def apply_input_def input_acceleration_def key_right_def no_keys_def
        PLAYER_ACCELERATION_def Let_def)
  have ms: "PLAYER_MAX_SPEED * speed_multiplier s1 = 9 / 2"
    by (simp add: speed_multiplier_def poll_powerups_def v1 pu PLAYER_MAX_SPEED_def)
  define s2 where "s2 = store_powerup_states s1"
  have v2: "p_vx s2 = p_vx s + 0.2" "p_vy s2 = 0" "p_x s2 = p_x s" "p_y s2 = 48" "p_radius s2 = 12"
    "active_powerups s2 = active_powerups s"
    by (simp_all add: s2_def store_powerup_states_def v1 split: prod.splits)
  have "sqrt ((p_vx s2)\<^sup>2 + (p_vy s2)\<^sup>2) = \<bar>p_vx s + 0.2\<bar>"
    by (simp add: v2)
  with vx have sp: "\<not> sqrt ((p_vx s2)\<^sup>2 + (p_vy s2)\<^sup>2) > 9 / 2"
    by simp
  then have l3: "limit_speed (9 / 2) s2 = Inr s2"
    by (simp add: limit_speed_def Let_def)
  have c1: "Player_check_wall_collision s2 (p_x s2 + p_vx s2) (p_y s2) ?tm = Inr False"
    using vx x by (simp add: Player_check_wall_collision_def v2 open_field)
  define s4 where "s4 = s2\<lparr>p_x := p_x s + p_vx s + 0.2, p_y := 48\<rparr>"
  have c2: "Player_check_wall_collision (s2\<lparr>p_x := p_x s2 + p_vx s2\<rparr>)
      (p_x s2 + p_vx s2) (p_y s2 + p_vy s2) ?tm = Inr False"
    using vx x by (simp add: Player_check_wall_collision_def v2 open_field)
  have m4: "Player_move ?tm s2 = Inr s4"
    using c1 c2 by (simp add: Player_move_def Let_def s4_def v2 add.assoc)
  have upd: "Player_update key_right ?tm s =
      Inr (Player_update_powerups (tick_invincibility (update_facing s4)))"
    by (simp add: Player_update_def Let_def s1_def [symmetric] s2_def [symmetric] ms l3 m4)
  have fin: "p_vx s4 = p_vx s + 0.2" "p_vy s4 = 0" "p_x s4 = p_x s + p_vx s + 0.2" "p_y s4 = 48"
    "p_radius s4 = 12" "active_powerups s4 = active_powerups s"
    by (simp_all add: s4_def v2)
  show ?thesis
    by (simp add: upd Player_update_powerups_def tick_invincibility_def update_facing_def fin pu)
qed

lemma dash_run:
  assumes "n \<le> 16"
  shows "\<exists>s. run_ops (add_powerup (Player_init 48 48) SPEED_BOOST 15)
             (replicate n (Update key_right (TileMap_init 30 20))) = Inr s \<and>
           p_vx s = real n / 5 \<and> p_vy s = 0 \<and> p_y s = 48 \<and>
           48 \<le> p_x s \<and> p_x s \<le> 48 + 4 * real n \<and> p_radius s = 12 \<and>
           active_powerups s =
             (if n \<le> 15 then [\<lparr>pu_type = SPEED_BOOST, pu_duration = 15 - int n, pu_strength = 1.0\<rparr>]
              else [])"
  using assms
proof (induction n)
  case 0
  then show ?case
    by (simp add: add_powerup_def Player_init_def)
next
  case (Suc n)
  let ?u = "Update key_right (TileMap_init 30 20)"
  from Suc obtain s where s: "run_ops (add_powerup (Player_init 48 48) SPEED_BOOST 15)
        (replicate n ?u) = Inr s"
    "p_vx s = real n / 5" "p_vy s = 0" "p_y s = 48" "48 \<le> p_x s" "p_x s \<le> 48 + 4 * real n"
    "p_radius s = 12"
    "active_powerups s = [\<lparr>pu_type = SPEED_BOOST, pu_duration = 15 - int n, pu_strength = 1.0\<rparr>]"
    by auto
  from Suc.prems s(2,6) have b: "0 \<le> p_vx s" "p_vx s \<le> 4.3" "p_x s \<le> 200"
    by simp_all
  from dash_step [OF s(3,4) b(1,2) s(5) b(3) s(7,8)] obtain s' where
    s': "Player_update key_right (TileMap_init 30 20) s = Inr s'"
      "p_vx s' = p_vx s + 0.2" "p_vy s' = 0" "p_y s' = 48" "p_x s' = p_x s + p_vx s + 0.2"
      "p_radius s' = 12"
      "active_powerups s' =
         (if 0 < 15 - int n
          then [\<lparr>pu_type = SPEED_BOOST, pu_duration = 15 - int n - 1, pu_strength = 1.0\<rparr>] else [])"
    by blast
  have "replicate (Suc n) ?u = replicate n ?u @ [?u]"
    by (simp add: replicate_append_same)
  then have run: "run_ops (add_powerup (Player_init 48 48) SPEED_BOOST 15) (replicate (Suc n) ?u) = Inr s'"
    using s(1) s'(1) by (simp add: run_ops_append)
  from s'(2,5) s(2,5,6) b Suc.prems have
    "p_vx s' = real (Suc n) / 5" "48 \<le> p_x s'" "p_x s' \<le> 48 + 4 * real (Suc n)"
    by (simp_all add: field_simps)
  with run s'(3,4,6,7) Suc.prems show ?case
    by (auto simp: algebra_simps)
qed

text \<open>
  C3, as stated, fails on the tick a SpeedBoost expires. A new player is given a
  SpeedBoost of duration 15 and holds the right key for 16 updates. The entry, with
  remaining duration 0, is still in the list when the sixteenth update polls it, so the
  limit of that tick is \<open>4.5\<close> and the velocity grows to \<open>3.2\<close>; the same update then
  prunes the entry. Afterwards the player moves at \<open>3.2\<close> with no SpeedBoost left in the
  active list, above \<open>PLAYER_MAX_SPEED \<times> 1.0\<close> by far more than rounding.
\<close>

theorem boost_expiry_counterexample:
  "map_sum id (\<lambda>s. (p_vx s, p_vy s, SPEED_BOOST \<in> pu_type ` set (active_powerups s)))
     (run_ops (Player_init 48 48) boosted_dash) = Inr (3.2, 0, False) \<and>
   \<not> sqrt (3.2\<^sup>2 + 0\<^sup>2) \<le> PLAYER_MAX_SPEED * 1.0 \<and>
   \<not> sqrt (3.2\<^sup>2 + 0\<^sup>2) \<le> PLAYER_MAX_SPEED * 1.0 * (1 + rounding_tolerance)"
proof -
  from dash_run [of 16] obtain s where
    s: "run_ops (add_powerup (Player_init 48 48) SPEED_BOOST 15)
          (replicate 16 (Update key_right (TileMap_init 30 20))) = Inr s"
      "p_vx s = 3.2" "p_vy s = 0" "active_powerups s = []"
    by auto
  have "\<not> sqrt ((3.2::real)\<^sup>2 + 0\<^sup>2) \<le> PLAYER_MAX_SPEED * 1.0"
    by (simp add: PLAYER_MAX_SPEED_def)
  moreover have "\<not> sqrt ((3.2::real)\<^sup>2 + 0\<^sup>2) \<le> PLAYER_MAX_SPEED * 1.0 * (1 + rounding_tolerance)"
    by (simp add: PLAYER_MAX_SPEED_def rounding_tolerance_def)
  ultimately show ?thesis using s
    by (simp add: boosted_dash_def)
qed

text \<open>
  C6, amended. From a new player (health 3), after any sequence of \<open>update\<close>,
  \<open>take_damage\<close>, \<open>heal\<close>, \<open>collect_candy\<close> and \<open>add_powerup\<close> calls the health is at most
  the fixed maximum 5, at which \<open>heal\<close> clamps; and it is at least 0 when every
  \<open>take_damage\<close> of the sequence is called at a positive health and every \<open>heal\<close> with a
  non-negative amount.
\<close>

theorem player_health_range:
  assumes "list_all op_wf ops"
  shows "\<exists>s. run_ops (Player_init x y) ops = Inr s \<and> health s \<le> 5 \<and>
           (guarded_run (Player_init x y) ops \<longrightarrow> 0 \<le> health s)"
proof -
  have "health (Player_init x y) \<le> 5"
    by (simp add: Player_init_def PLAYER_MAX_HEALTH_def)
  from run_ops_invariant [where P = "\<lambda>s. health s \<le> 5", OF this assms apply_op_health_le]
  obtain s where s: "run_ops (Player_init x y) ops = Inr s" "health s \<le> 5" by blast
  have "0 \<le> health (Player_init x y)"
    by (simp add: Player_init_def PLAYER_MAX_HEALTH_def)
  then have "guarded_run (Player_init x y) ops \<longrightarrow> 0 \<le> health s"
    using guarded_run_health [OF assms _ _ s(1)] by blast
  with s show ?thesis by blast
qed

theorem player_health_range_witness:
  "list_all op_wf [Update no_keys (TileMap_init 30 20), TakeDamage, Heal 1] \<and>
   guarded_run (Player_init 48 48) [Update no_keys (TileMap_init 30 20), TakeDamage, Heal 1] \<and>
   (\<exists>s. run_ops (Player_init 48 48) [Update no_keys (TileMap_init 30 20), TakeDamage, Heal 1]
           = Inr s \<and> health s \<le> 5 \<and> 0 \<le> health s)"
proof -
  let ?tm = "TileMap_init 30 20"
  let ?ops = "[Update no_keys ?tm, TakeDamage, Heal 1]"
  have wf: "list_all op_wf ?ops"
    by (simp add: wf_map_init)
  from Player_update_result [where kp = no_keys and self = "Player_init 48 48",
      OF wf_map_init [of 30 20]]
  obtain s1 where s1: "Player_update no_keys ?tm (Player_init 48 48) = Inr s1"
    "health s1 = 3"
    by (auto simp: after_tick_def Player_init_def PLAYER_MAX_HEALTH_def)
  then have g: "guarded_run (Player_init 48 48) ?ops"
    by simp
  from wf g player_health_range [OF wf, of 48 48] show ?thesis by blast
qed

subsection \<open>Ghost: movement selection never divides by zero\<close>

lemma Ghost_chase_player_result:
  "\<exists>s'. Ghost_chase_player self player = Inr s' \<and> s' = self\<lparr>g_vx := g_vx s', g_vy := g_vy s'\<rparr>"
proof -
  let ?d = "sqrt ((p_x player - g_x self)\<^sup>2 + (p_y player - g_y self)\<^sup>2)"
  show ?thesis
  proof (cases "?d > 0")
    case True
    then have "?d \<noteq> 0" by linarith
    with True show ?thesis
      by (simp add: Ghost_chase_player_def Let_def py_truediv_def)
  next
    case False
    then show ?thesis
      by (simp add: Ghost_chase_player_def Let_def)
  qed
qed

lemma Ghost_return_to_start_result:
  assumes "player_ref self = Some player"
  shows "\<exists>s'. Ghost_return_to_start self = Inr s' \<and>
           s' = self\<lparr>g_vx := g_vx s', g_vy := g_vy s'\<rparr>"
proof -
  let ?d = "sqrt ((start_x self - g_x self)\<^sup>2 + (start_y self - g_y self)\<^sup>2)"
  show ?thesis
  proof (cases "?d > 0")
    case True
    then have "?d \<noteq> 0" by linarith
    with True assms show ?thesis
      by (simp add: Ghost_return_to_start_def Let_def py_truediv_def)
  next
    case False
    then show ?thesis
      by (simp add: Ghost_return_to_start_def Let_def)
  qed
qed

lemma ghost_inv_nonempty:
  assumes "ghost_inv s"
  shows "patrol_points s \<noteq> []"
proof
  assume "patrol_points s = []"
  with assms have "0 \<le> current_patrol_target s" "current_patrol_target s < 0"
    by (simp_all add: ghost_inv_def)
  then show False by linarith
qed

lemma Ghost_patrol_far:
  assumes "ghost_inv self"
    and "patrol_points self ! nat (current_patrol_target self) = (tx, ty)"
    and "10 \<le> sqrt ((tx - g_x self)\<^sup>2 + (ty - g_y self)\<^sup>2)"
  shows "Ghost_patrol self =
           Inr (self\<lparr>g_vx := (tx - g_x self) / sqrt ((tx - g_x self)\<^sup>2 + (ty - g_y self)\<^sup>2)
                           * patrol_speed self,
                      g_vy := (ty - g_y self) / sqrt ((tx - g_x self)\<^sup>2 + (ty - g_y self)\<^sup>2)
                           * patrol_speed self\<rparr>)"
proof -
  let ?d = "sqrt ((tx - g_x self)\<^sup>2 + (ty - g_y self)\<^sup>2)"
  note ne = ghost_inv_nonempty [OF assms(1)]
  from assms(1,2) have get: "py_getitem (patrol_points self) (current_patrol_target self) = Inr (tx, ty)"
    by (simp add: ghost_inv_def py_getitem_in_range)
  from assms(3) have "\<not> ?d < 10" "?d \<noteq> 0" by linarith+
  with ne get show ?thesis
    by (simp add: Ghost_patrol_def Let_def py_truediv_def)
qed

lemma Ghost_patrol_near:
  assumes "ghost_inv self"
    and "patrol_points self ! nat (current_patrol_target self) = (tx, ty)"
    and "sqrt ((tx - g_x self)\<^sup>2 + (ty - g_y self)\<^sup>2) < 10"
  shows "Ghost_patrol self =
           Inr (self\<lparr>current_patrol_target :=
                  (current_patrol_target self + 1) mod int (length (patrol_points self))\<rparr>)"
proof -
  note ne = ghost_inv_nonempty [OF assms(1)]
  from assms(1,2) have get: "py_getitem (patrol_points self) (current_patrol_target self) = Inr (tx, ty)"
    by (simp add: ghost_inv_def py_getitem_in_range)
  from ne get assms(3) show ?thesis
    by (simp add: Ghost_patrol_def Let_def)
qed

lemma Ghost_patrol_result:
  assumes "ghost_inv self"
  shows "\<exists>s'. Ghost_patrol self = Inr s' \<and> ghost_inv s' \<and> g_state s' = g_state self \<and>
           chase_timer s' = chase_timer self"
proof -
  obtain tx ty where t: "patrol_points self ! nat (current_patrol_target self) = (tx, ty)"
    by (cases "patrol_points self ! nat (current_patrol_target self)")
  show ?thesis
  proof (cases "sqrt ((tx - g_x self)\<^sup>2 + (ty - g_y self)\<^sup>2) < 10")
    case True
    from ghost_inv_nonempty [OF assms] have "0 < int (length (patrol_points self))"
      by simp
    then have "ghost_inv (self\<lparr>current_patrol_target :=
        (current_patrol_target self + 1) mod int (length (patrol_points self))\<rparr>)"
      by (simp add: ghost_inv_def)
    with Ghost_patrol_near [OF assms t True] show ?thesis by simp
  next
    case False
    then have "10 \<le> sqrt ((tx - g_x self)\<^sup>2 + (ty - g_y self)\<^sup>2)" by simp
    from Ghost_patrol_far [OF assms t this] assms show ?thesis
      by (simp add: ghost_inv_def)
  qed
qed

lemma Ghost_apply_movement_result:
  assumes "wf_map tm"
  shows "\<exists>s'. Ghost_apply_movement self tm = Inr s' \<and> s' = self\<lparr>g_x := g_x s', g_y := g_y s'\<rparr>"
proof -
  have chk: "\<exists>b. Ghost_check_wall_collision s x y tm = Inr b" for s x y
    by (simp add: Ghost_check_wall_collision_def is_solid_tile_wf [OF assms])
  obtain hx where hx: "Ghost_check_wall_collision self (g_x self + g_vx self) (g_y self) tm = Inr hx"
    using chk by blast
  define s1 where "s1 = (if \<not> hx then self\<lparr>g_x := g_x self + g_vx self\<rparr> else self)"
  obtain hy where hy: "Ghost_check_wall_collision s1 (g_x s1) (g_y self + g_vy self) tm = Inr hy"
    using chk by blast
  define s2 where "s2 = (if \<not> hy then s1\<lparr>g_y := g_y self + g_vy self\<rparr> else s1)"
  from hx hy have "Ghost_apply_movement self tm = Inr s2"
    by (simp add: Ghost_apply_movement_def Let_def s1_def s2_def)
  moreover have "s2 = self\<lparr>g_x := g_x s2, g_y := g_y s2\<rparr>"
    by (simp add: s2_def s1_def)
  ultimately show ?thesis by blast
qed

lemma Ghost_state_management_fields:
  "patrol_points (fst (Ghost_state_management s p)) = patrol_points s"
  "current_patrol_target (fst (Ghost_state_management s p)) = current_patrol_target s"
  "player_ref (fst (Ghost_state_management s p)) = player_ref s"
  "snd (Ghost_state_management s p) = (g_state s = ''patrol'' \<and> detects s p)"
  "g_state s = ''patrol'' \<Longrightarrow>
     g_state (fst (Ghost_state_management s p)) = (if detects s p then ''chase'' else ''patrol'')"
  "g_state s = ''patrol'' \<Longrightarrow> detects s p \<Longrightarrow> chase_timer (fst (Ghost_state_management s p)) = 300"
  "g_state s = ''patrol'' \<Longrightarrow> \<not> detects s p \<Longrightarrow> fst (Ghost_state_management s p) = s"
  by (simp_all add: Ghost_state_management_def Let_def)

lemma Ghost_move_by_state_result:
  assumes "ghost_inv s" and "player_ref s = Some p"
  shows "\<exists>s'. Ghost_move_by_state s p = Inr s' \<and> ghost_inv s' \<and> g_state s' = g_state s \<and>
           chase_timer s' = chase_timer s"
proof -
  have keep: "ghost_inv s' \<and> g_state s' = g_state s \<and> chase_timer s' = chase_timer s"
    if "s' = s\<lparr>g_vx := g_vx s', g_vy := g_vy s'\<rparr>" for s'
    using assms(1) by (subst (1 2 3) that) (simp add: ghost_inv_def)
  consider "g_state s = ''chase''" | "g_state s \<noteq> ''chase''" "g_state s = ''return''"
    | "g_state s \<noteq> ''chase''" "g_state s \<noteq> ''return''" by blast
  then show ?thesis
  proof cases
    case 1
    from Ghost_chase_player_result [of s p] obtain s' where
      r: "Ghost_chase_player s p = Inr s'" "s' = s\<lparr>g_vx := g_vx s', g_vy := g_vy s'\<rparr>" by blast
    from 1 r(1) keep [OF r(2)] show ?thesis
      by (simp add: Ghost_move_by_state_def)
  next
    case 2
    from Ghost_return_to_start_result [OF assms(2)] obtain s' where
      r: "Ghost_return_to_start s = Inr s'" "s' = s\<lparr>g_vx := g_vx s', g_vy := g_vy s'\<rparr>" by blast
    from 2 r(1) keep [OF r(2)] show ?thesis
      by (simp add: Ghost_move_by_state_def)
  next
    case 3
    with Ghost_patrol_result [OF assms(1)] show ?thesis
      by (simp add: Ghost_move_by_state_def)
  qed
qed

lemma Ghost_update_result:
  assumes "ghost_inv self" and "wf_map tm"
  shows "\<exists>s'. Ghost_update self player tm = Inr (s', g_state self = ''patrol'' \<and> detects self player) \<and>
           ghost_inv s' \<and>
           g_state s' = g_state (fst (Ghost_state_management (self\<lparr>player_ref := Some player\<rparr>) player)) \<and>
           chase_timer s' = chase_timer (fst (Ghost_state_management (self\<lparr>player_ref := Some player\<rparr>) player))"
proof -
  define s0 where "s0 = self\<lparr>player_ref := Some player\<rparr>"
  define s1 where "s1 = fst (Ghost_state_management s0 player)"
  define ev where "ev = snd (Ghost_state_management s0 player)"
  have sm: "Ghost_state_management s0 player = (s1, ev)"
    by (simp add: s1_def ev_def)
  have ev: "ev = (g_state self = ''patrol'' \<and> detects self player)"
    by (simp add: ev_def Ghost_state_management_fields s0_def detects_def distance_to_player_def)
  from assms(1) have "ghost_inv s1" "player_ref s1 = Some player"
    by (simp_all add: s1_def ghost_inv_def Ghost_state_management_fields s0_def)
  from Ghost_move_by_state_result [OF this] obtain s2 where
    s2: "Ghost_move_by_state s1 player = Inr s2" "ghost_inv s2" "g_state s2 = g_state s1"
      "chase_timer s2 = chase_timer s1" by blast
  from Ghost_apply_movement_result [OF assms(2), of s2] obtain s3 where
    s3: "Ghost_apply_movement s2 tm = Inr s3" "s3 = s2\<lparr>g_x := g_x s3, g_y := g_y s3\<rparr>" by blast
  have eq: "Ghost_update self player tm = Inr (s3, ev)"
    by (simp add: Ghost_update_def Let_def s0_def [symmetric] sm s2(1) s3(1))
  have "ghost_inv s3 \<and> g_state s3 = g_state s2 \<and> chase_timer s3 = chase_timer s2"
    using s2(2) by (subst (1 2 3) s3(2)) (simp add: ghost_inv_def)
  with eq s2(2-4) ev show ?thesis
    by (simp add: s1_def s0_def)
qed


lemma ghost_inv_init: "ghost_inv (Ghost_init x y pts)"
  by (simp add: ghost_inv_def Ghost_init_def split: option.splits)

lemma Ghost_run_total:
  assumes "ghost_inv self" and "list_all (\<lambda>(p, tm). wf_map tm) ticks"
  shows "\<exists>s. Ghost_run self ticks = Inr s \<and> ghost_inv s"
  using assms
proof (induction ticks arbitrary: self)
  case Nil
  then show ?case by simp
next
  case (Cons t ticks)
  obtain p tm where t: "t = (p, tm)" by (cases t)
  with Cons.prems have wf: "wf_map tm" and rest: "list_all (\<lambda>(p, tm). wf_map tm) ticks"
    by simp_all
  from Ghost_update_result [OF Cons.prems(1) wf, of p] obtain s' ev where
    s': "Ghost_update self p tm = Inr (s', ev)" "ghost_inv s'" by blast
  from Cons.IH [OF s'(2) rest] s'(1) t show ?case by simp
qed

lemma Ghost_patrol_no_zero_division: "Ghost_patrol self \<noteq> Inl ZeroDivisionError"
proof (cases "patrol_points self = []")
  case True
  then show ?thesis by (simp add: Ghost_patrol_def)
next
  case False
  show ?thesis
  proof (cases "py_getitem (patrol_points self) (current_patrol_target self)")
    case (Inl e)
    then have "e = IndexError"
      by (simp add: py_getitem_def split: if_splits)
    with Inl False show ?thesis by (simp add: Ghost_patrol_def)
  next
    case (Inr t)
    obtain tx ty where t: "t = (tx, ty)" by (cases t)
    let ?d = "sqrt ((tx - g_x self)\<^sup>2 + (ty - g_y self)\<^sup>2)"
    show ?thesis
    proof (cases "?d < 10")
      case True
      with Inr t False show ?thesis by (simp add: Ghost_patrol_def Let_def)
    next
      case far: False
      then have "?d \<noteq> 0" by linarith
      with far Inr t False show ?thesis
        by (simp add: Ghost_patrol_def Let_def py_truediv_def)
    qed
  qed
qed

lemma Ghost_return_no_zero_division: "Ghost_return_to_start self \<noteq> Inl ZeroDivisionError"
proof (cases "player_ref self")
  case None
  then show ?thesis by (simp add: Ghost_return_to_start_def Let_def)
next
  case (Some p)
  from Ghost_return_to_start_result [OF this] show ?thesis by auto
qed

lemma Ghost_chase_no_zero_division: "Ghost_chase_player self player \<noteq> Inl ZeroDivisionError"
  using Ghost_chase_player_result [of self player] by auto

text \<open>
  C10. \<open>Ghost.update\<close> is total on every ghost state reachable from the constructor,
  whatever the player: none of the three movement selections (chase, return, patrol)
  can raise a division by zero, for any ghost at all, since each divides only by a
  distance it has found positive; and over any sequence of ticks on well-shaped maps the
  update returns a new ghost state, whose waypoint index stays inside the route.
\<close>

theorem ghost_update_total:
  "Ghost_chase_player self player \<noteq> Inl ZeroDivisionError \<and>
   Ghost_return_to_start self \<noteq> Inl ZeroDivisionError \<and>
   Ghost_patrol self \<noteq> Inl ZeroDivisionError \<and>
   (list_all (\<lambda>(p, tm). wf_map tm) ticks \<longrightarrow>
      (\<exists>s. Ghost_run (Ghost_init x y pts) ticks = Inr s \<and> ghost_inv s))"
  using Ghost_chase_no_zero_division Ghost_return_no_zero_division
    Ghost_patrol_no_zero_division Ghost_run_total [OF ghost_inv_init]
  by blast

theorem ghost_update_total_witness:
  "list_all (\<lambda>(p, tm). wf_map tm)
     [(Player_init 48 48, TileMap_init 30 20), (slowed_player, TileMap_init 30 20)] \<and>
   (\<exists>s. Ghost_run (Ghost_init 48 48 None)
           [(Player_init 48 48, TileMap_init 30 20), (slowed_player, TileMap_init 30 20)] = Inr s \<and>
        ghost_inv s)"
proof -
  have wf: "list_all (\<lambda>(p, tm). wf_map tm)
     [(Player_init 48 48, TileMap_init 30 20), (slowed_player, TileMap_init 30 20)]"
    by (simp add: wf_map_init)
  with ghost_update_total [where x = 48 and y = 48 and pts = None and
      ticks = "[(Player_init 48 48, TileMap_init 30 20), (slowed_player, TileMap_init 30 20)]"]
  show ?thesis by blast
qed




lemma patrol_speed_seen:
  "patrol_speed (s\<lparr>player_ref := Some p\<rparr>) = slowed p GHOST_SPEED"
  by (simp add: patrol_speed_def slowed_def)

lemma Ghost_update_patrol_step:
  assumes inv: "ghost_inv self" and wf: "wf_map tile_map"
    and st: "g_state self = ''patrol''"
    and far: "\<not> (distance_to_player self player \<le> GHOST_DETECTION_RADIUS \<and>
                \<not> invisibility_active player)"
    and wp: "current_waypoint self = (tx, ty)"
  shows "\<exists>s'. Ghost_update self player tile_map = Inr (s', False) \<and> g_state s' = ''patrol'' \<and>
           (10 \<le> sqrt ((tx - g_x self)\<^sup>2 + (ty - g_y self)\<^sup>2) \<longrightarrow>
              g_vx s' = (tx - g_x self) / sqrt ((tx - g_x self)\<^sup>2 + (ty - g_y self)\<^sup>2)
                          * slowed player GHOST_SPEED \<and>
              g_vy s' = (ty - g_y self) / sqrt ((tx - g_x self)\<^sup>2 + (ty - g_y self)\<^sup>2)
                          * slowed player GHOST_SPEED \<and>
              sqrt ((g_vx s')\<^sup>2 + (g_vy s')\<^sup>2) = slowed player GHOST_SPEED \<and>
              current_patrol_target s' = current_patrol_target self) \<and>
           (sqrt ((tx - g_x self)\<^sup>2 + (ty - g_y self)\<^sup>2) < 10 \<longrightarrow>
              current_patrol_target s' =
                (current_patrol_target self + 1) mod int (length (patrol_points self)) \<and>
              g_vx s' = g_vx self \<and> g_vy s' = g_vy self)"
proof -
  let ?d = "sqrt ((tx - g_x self)\<^sup>2 + (ty - g_y self)\<^sup>2)"
  let ?sp = "slowed player GHOST_SPEED"
  define s0 where "s0 = self\<lparr>player_ref := Some player\<rparr>"
  have nd: "\<not> detects s0 player"
    using far by (simp add: detects_def distance_to_player_def s0_def)
  have sm: "Ghost_state_management s0 player = (s0, False)"
    using st nd by (simp add: Ghost_state_management_def s0_def)
  have inv0: "ghost_inv s0" using inv by (simp add: ghost_inv_def s0_def)
  have wp0: "patrol_points s0 ! nat (current_patrol_target s0) = (tx, ty)"
    using wp by (simp add: current_waypoint_def s0_def)
  have mv: "Ghost_move_by_state s0 player = Ghost_patrol s0"
    using st by (simp add: Ghost_move_by_state_def s0_def)
  have sp_nonneg: "0 \<le> ?sp"
    by (simp add: slowed_def GHOST_SPEED_def)
  show ?thesis
  proof (cases "?d < 10")
    case True
    define s2 where "s2 = s0\<lparr>current_patrol_target :=
        (current_patrol_target s0 + 1) mod int (length (patrol_points s0))\<rparr>"
    have p: "Ghost_patrol s0 = Inr s2"
      using Ghost_patrol_near [OF inv0 wp0] True by (simp add: s2_def s0_def)
    from Ghost_apply_movement_result [OF wf, of s2] obtain s3 where
      s3: "Ghost_apply_movement s2 tile_map = Inr s3" "s3 = s2\<lparr>g_x := g_x s3, g_y := g_y s3\<rparr>"
      by blast
    have eq: "Ghost_update self player tile_map = Inr (s3, False)"
      by (simp add: Ghost_update_def Let_def s0_def [symmetric] sm mv p s3(1))
    have "g_state s3 = g_state s2 \<and> current_patrol_target s3 = current_patrol_target s2 \<and>
        g_vx s3 = g_vx s2 \<and> g_vy s3 = g_vy s2"
      by (subst (1 2 3 4) s3(2)) simp
    then have "g_state s3 = ''patrol'' \<and>
        current_patrol_target s3 =
          (current_patrol_target self + 1) mod int (length (patrol_points self)) \<and>
        g_vx s3 = g_vx self \<and> g_vy s3 = g_vy self"
      using st by (simp add: s2_def s0_def)
    with eq True show ?thesis by simp
  next
    case False
    then have ge: "10 \<le> ?d" by simp
    then have pos: "0 < ?d" by linarith
    define s2 where "s2 = s0\<lparr>g_vx := (tx - g_x self) / ?d * ?sp, g_vy := (ty - g_y self) / ?d * ?sp\<rparr>"
    have p: "Ghost_patrol s0 = Inr s2"
      using Ghost_patrol_far [OF inv0 wp0] ge
      by (simp add: s2_def s0_def patrol_speed_seen [where s = self and p = player])
    from Ghost_apply_movement_result [OF wf, of s2] obtain s3 where
      s3: "Ghost_apply_movement s2 tile_map = Inr s3" "s3 = s2\<lparr>g_x := g_x s3, g_y := g_y s3\<rparr>"
      by blast
    have eq: "Ghost_update self player tile_map = Inr (s3, False)"
      by (simp add: Ghost_update_def Let_def s0_def [symmetric] sm mv p s3(1))
    have "g_state s3 = g_state s2 \<and> current_patrol_target s3 = current_patrol_target s2 \<and>
        g_vx s3 = g_vx s2 \<and> g_vy s3 = g_vy s2"
      by (subst (1 2 3 4) s3(2)) simp
    then have f: "g_state s3 = ''patrol''" "current_patrol_target s3 = current_patrol_target self"
      "g_vx s3 = (tx - g_x self) / ?d * ?sp" "g_vy s3 = (ty - g_y self) / ?d * ?sp"
      using st by (simp_all add: s2_def s0_def)
    have "sqrt ((g_vx s3)\<^sup>2 + (g_vy s3)\<^sup>2) = ?sp"
      unfolding f(3,4) by (rule rescale_norm [OF pos sp_nonneg])
    with eq f False show ?thesis by simp
  qed
qed

text \<open>
  C5, amended. For a ghost in Patrol that stays in Patrol on this update (the player is
  beyond the detection radius or invisible): when the distance to the current waypoint
  is at least 10, the update sets the velocity to \<open>(dx / distance) * speed\<close> and
  \<open>(dy / distance) * speed\<close>, the offset to the waypoint scaled to \<open>speed\<close>, where
  \<open>speed\<close> is \<open>GHOST_SPEED\<close>, or \<open>GHOST_SPEED * 0.4\<close> when the player has time slow
  active; its magnitude is \<open>speed\<close> up to floating-point rounding (a relative slack of
  \<open>10\<^sup>-\<^sup>9\<close>); the waypoint index stays. When the distance is below 10 the update
  advances the index cyclically modulo the route length and keeps the velocity.
\<close>

theorem ghost_patrol_step:
  assumes "ghost_inv self" and "wf_map tile_map"
    and "g_state self = ''patrol''"
    and "\<not> (distance_to_player self player \<le> GHOST_DETECTION_RADIUS \<and>
           \<not> invisibility_active player)"
    and "current_waypoint self = (tx, ty)"
  shows "\<exists>s'. Ghost_update self player tile_map = Inr (s', False) \<and> g_state s' = ''patrol'' \<and>
           (10 \<le> sqrt ((tx - g_x self)\<^sup>2 + (ty - g_y self)\<^sup>2) \<longrightarrow>
              g_vx s' = (tx - g_x self) / sqrt ((tx - g_x self)\<^sup>2 + (ty - g_y self)\<^sup>2)
                          * slowed player GHOST_SPEED \<and>
              g_vy s' = (ty - g_y self) / sqrt ((tx - g_x self)\<^sup>2 + (ty - g_y self)\<^sup>2)
                          * slowed player GHOST_SPEED \<and>
              \<bar>sqrt ((g_vx s')\<^sup>2 + (g_vy s')\<^sup>2) - slowed player GHOST_SPEED\<bar>
                \<le> slowed player GHOST_SPEED * rounding_tolerance \<and>
              current_patrol_target s' = current_patrol_target self) \<and>
           (sqrt ((tx - g_x self)\<^sup>2 + (ty - g_y self)\<^sup>2) < 10 \<longrightarrow>
              current_patrol_target s' =
                (current_patrol_target self + 1) mod int (length (patrol_points self)) \<and>
              g_vx s' = g_vx self \<and> g_vy s' = g_vy self)"
proof -
  let ?d = "sqrt ((tx - g_x self)\<^sup>2 + (ty - g_y self)\<^sup>2)"
  let ?sp = "slowed player GHOST_SPEED"
  from Ghost_update_patrol_step [OF assms] obtain s' where
    upd: "Ghost_update self player tile_map = Inr (s', False)" "g_state s' = ''patrol''"
    and far: "10 \<le> ?d \<longrightarrow>
        g_vx s' = (tx - g_x self) / ?d * ?sp \<and> g_vy s' = (ty - g_y self) / ?d * ?sp \<and>
        sqrt ((g_vx s')\<^sup>2 + (g_vy s')\<^sup>2) = ?sp \<and>
        current_patrol_target s' = current_patrol_target self"
    and near: "?d < 10 \<longrightarrow>
        current_patrol_target s' =
          (current_patrol_target self + 1) mod int (length (patrol_points self)) \<and>
        g_vx s' = g_vx self \<and> g_vy s' = g_vy self"
    by blast
  have nn: "0 \<le> ?sp * rounding_tolerance"
    by (simp add: slowed_def GHOST_SPEED_def rounding_tolerance_def)
  have tol: "\<bar>m - ?sp\<bar> \<le> ?sp * rounding_tolerance" if "m = ?sp" for m
    using that nn by simp
  from far tol have "10 \<le> ?d \<longrightarrow>
        g_vx s' = (tx - g_x self) / ?d * ?sp \<and> g_vy s' = (ty - g_y self) / ?d * ?sp \<and>
        \<bar>sqrt ((g_vx s')\<^sup>2 + (g_vy s')\<^sup>2) - ?sp\<bar> \<le> ?sp * rounding_tolerance \<and>
        current_patrol_target s' = current_patrol_target self"
    by blast
  with upd near show ?thesis by blast
qed

lemma patrol_ghost_facts:
  "ghost_inv patrol_ghost" "g_state patrol_ghost = ''patrol''"
  "current_waypoint patrol_ghost = (148, 48)"
  "g_x patrol_ghost = 48" "g_y patrol_ghost = 48"
  "\<not> (distance_to_player patrol_ghost slowed_player \<le> GHOST_DETECTION_RADIUS \<and>
      \<not> invisibility_active slowed_player)"
  "slowed slowed_player GHOST_SPEED = 0.6"
  by (simp_all add: patrol_ghost_def ghost_inv_def current_waypoint_def Ghost_init_def
      distance_to_player_def slowed_player_def Player_init_def GHOST_DETECTION_RADIUS_def
      slowed_def GHOST_SPEED_def)

theorem ghost_patrol_step_witness:
  "ghost_inv patrol_ghost \<and> wf_map (TileMap_init 30 20) \<and> g_state patrol_ghost = ''patrol'' \<and>
   \<not> (distance_to_player patrol_ghost slowed_player \<le> GHOST_DETECTION_RADIUS \<and>
      \<not> invisibility_active slowed_player) \<and>
   current_waypoint patrol_ghost = (148, 48) \<and>
   10 \<le> sqrt ((148 - g_x patrol_ghost)\<^sup>2 + (48 - g_y patrol_ghost)\<^sup>2) \<and>
   (\<exists>s'. Ghost_update patrol_ghost slowed_player (TileMap_init 30 20) = Inr (s', False) \<and>
      g_vx s' = (148 - 48) / 100 * (GHOST_SPEED * 0.4) \<and>
      g_vy s' = (48 - 48) / 100 * (GHOST_SPEED * 0.4) \<and>
      \<bar>sqrt ((g_vx s')\<^sup>2 + (g_vy s')\<^sup>2) - GHOST_SPEED * 0.4\<bar>
        \<le> GHOST_SPEED * 0.4 * rounding_tolerance)"
proof -
  have d: "sqrt ((148 - g_x patrol_ghost)\<^sup>2 + (48 - g_y patrol_ghost)\<^sup>2) = 100"
    by (simp add: patrol_ghost_facts)
  have sp: "slowed slowed_player GHOST_SPEED = GHOST_SPEED * 0.4"
    by (simp add: slowed_def slowed_player_def)
  from ghost_patrol_step [OF patrol_ghost_facts(1) wf_map_init patrol_ghost_facts(2,6,3), of 30 20]
  obtain s' where s': "Ghost_update patrol_ghost slowed_player (TileMap_init 30 20) = Inr (s', False)"
    "g_vx s' = (148 - 48) / 100 * (GHOST_SPEED * 0.4)"
    "g_vy s' = (48 - 48) / 100 * (GHOST_SPEED * 0.4)"
    "\<bar>sqrt ((g_vx s')\<^sup>2 + (g_vy s')\<^sup>2) - GHOST_SPEED * 0.4\<bar>
       \<le> GHOST_SPEED * 0.4 * rounding_tolerance"
    unfolding d patrol_ghost_facts(4,5) sp by auto
  have far: "10 \<le> sqrt ((148 - g_x patrol_ghost)\<^sup>2 + (48 - g_y patrol_ghost)\<^sup>2)"
    by (simp only: d)
  from s' far patrol_ghost_facts(1,2,3,6) wf_map_init [of 30 20] show ?thesis by blast
qed

text \<open>
  C5, as stated, fails when the player has time slow active: a patrolling ghost 100
  pixels from its waypoint then moves at \<open>0.6\<close>, not at \<open>GHOST_SPEED = 1.5\<close>, far
  beyond any rounding.
\<close>

theorem ghost_patrol_slowed_counterexample:
  "map_sum id (\<lambda>(s, ev). (g_state s, g_vx s, g_vy s, ev))
     (Ghost_update patrol_ghost slowed_player (TileMap_init 30 20)) =
     Inr (''patrol'', 0.6, 0, False) \<and>
   sqrt (0.6\<^sup>2 + 0\<^sup>2) \<noteq> GHOST_SPEED \<and>
   \<not> \<bar>sqrt (0.6\<^sup>2 + 0\<^sup>2) - GHOST_SPEED\<bar> \<le> GHOST_SPEED * rounding_tolerance"
proof -
  have d: "sqrt ((148 - g_x patrol_ghost)\<^sup>2 + (48 - g_y patrol_ghost)\<^sup>2) = 100"
    by (simp add: patrol_ghost_facts)
  from Ghost_update_patrol_step [OF patrol_ghost_facts(1) wf_map_init patrol_ghost_facts(2,6,3), of 30 20]
  obtain s' where s': "Ghost_update patrol_ghost slowed_player (TileMap_init 30 20) = Inr (s', False)"
    "g_state s' = ''patrol''" "g_vx s' = 0.6" "g_vy s' = 0"
    unfolding d patrol_ghost_facts(4,5,7) by auto
  have "sqrt ((0.6::real)\<^sup>2 + 0\<^sup>2) \<noteq> GHOST_SPEED"
    by (simp add: GHOST_SPEED_def)
  moreover have "\<not> \<bar>sqrt ((0.6::real)\<^sup>2 + 0\<^sup>2) - GHOST_SPEED\<bar> \<le> GHOST_SPEED * rounding_tolerance"
    by (simp add: GHOST_SPEED_def rounding_tolerance_def)
  ultimately show ?thesis using s' by simp
qed

subsection \<open>Candy: collecting twice\<close>

lemma Candy_collect_collected:
  "collected self \<Longrightarrow> Candy_collect self player dr = (self, player, [])"
  by (simp add: Candy_collect_def)

lemma Candy_collect_marks:
  "collected (fst (Candy_collect self player dr))"
  by (simp add: Candy_collect_def Let_def)

text \<open>
  C8. \<open>Candy.collect\<close> is idempotent: on a candy whose \<open>collected\<close> flag is set it
  returns the candy and the player unchanged (candy counter, score, health and power-ups
  with them) and an empty particle list; the first call sets the flag, so a second call
  after any first one has no effect.
\<close>

theorem candy_collect_idempotent:
  "(collected self \<longrightarrow> Candy_collect self player dr = (self, player, [])) \<and>
   collected (fst (Candy_collect self player dr)) \<and>
   Candy_collect (fst (Candy_collect self player dr)) (fst (snd (Candy_collect self player dr))) dr' =
     (fst (Candy_collect self player dr), fst (snd (Candy_collect self player dr)), [])"
  using Candy_collect_collected Candy_collect_marks by blast

theorem candy_collect_idempotent_witness:
  "collected (fst (Candy_collect bonus_candy (Player_init 100 100) zero_draws)) \<and>
   score (fst (snd (Candy_collect bonus_candy (Player_init 100 100) zero_draws))) = 50 \<and>
   health (fst (snd (Candy_collect bonus_candy (Player_init 100 100) zero_draws))) = 4 \<and>
   length (snd (snd (Candy_collect bonus_candy (Player_init 100 100) zero_draws))) = 8 \<and>
   Candy_collect (fst (Candy_collect bonus_candy (Player_init 100 100) zero_draws))
       (fst (snd (Candy_collect bonus_candy (Player_init 100 100) zero_draws))) zero_draws =
     (fst (Candy_collect bonus_candy (Player_init 100 100) zero_draws),
      fst (snd (Candy_collect bonus_candy (Player_init 100 100) zero_draws)), [])"
proof -
  have "score (fst (snd (Candy_collect bonus_candy (Player_init 100 100) zero_draws))) = 50"
    "health (fst (snd (Candy_collect bonus_candy (Player_init 100 100) zero_draws))) = 4"
    "length (snd (snd (Candy_collect bonus_candy (Player_init 100 100) zero_draws))) = 8"
    by (simp_all add: Candy_collect_def bonus_candy_def Candy_init_def Let_def collect_candy_def
        heal_def Player_init_def PLAYER_MAX_HEALTH_def)
  with candy_collect_idempotent [of bonus_candy "Player_init 100 100" zero_draws zero_draws]
  show ?thesis by blast
qed

subsection \<open>ChurchPuzzle: submitting an order\<close>

lemma py_swap_in_range:
  assumes "0 \<le> i" "i < int (length xs)" "0 \<le> j" "j < int (length xs)"
  shows "py_swap xs i j = Inr (xs[nat i := xs ! nat j, nat j := xs ! nat i])"
  using assms by (simp add: py_swap_def py_getitem_in_range py_setitem_in_range)

lemma move_selected_no_keys:
  "\<not> (K_a kp \<or> K_LEFT kp \<or> K_d kp \<or> K_RIGHT kp) \<Longrightarrow> move_selected kp self = Inr self"
  by (simp add: move_selected_def Let_def)

lemma move_selected_result:
  assumes "selection_ok self"
  shows "\<exists>s1. move_selected kp self = Inr s1 \<and> selection_ok s1 \<and>
           s1 = self\<lparr>current_order := current_order s1, selected_symbol := selected_symbol s1\<rparr>"
proof -
  let ?sel = "selected_symbol self"
  let ?co = "current_order self"
  from assms have r: "0 \<le> ?sel" "?sel < int (length ?co)"
    by (simp_all add: selection_ok_def)
  consider (left) "K_a kp \<or> K_LEFT kp" "?sel > 0"
    | (right) "\<not> (K_a kp \<or> K_LEFT kp)" "K_d kp \<or> K_RIGHT kp" "?sel < int (length ?co) - 1"
    | (stay) "\<not> ((K_a kp \<or> K_LEFT kp) \<and> ?sel > 0)"
        "\<not> (\<not> (K_a kp \<or> K_LEFT kp) \<and> (K_d kp \<or> K_RIGHT kp) \<and> ?sel < int (length ?co) - 1)"
    by blast
  then show ?thesis
  proof cases
    case left
    with r have "py_swap ?co ?sel (?sel - 1) =
        Inr (?co[nat ?sel := ?co ! nat (?sel - 1), nat (?sel - 1) := ?co ! nat ?sel])"
      by (intro py_swap_in_range) simp_all
    with left r show ?thesis
      by (simp add: move_selected_def Let_def selection_ok_def)
  next
    case right
    with r have "py_swap ?co ?sel (?sel + 1) =
        Inr (?co[nat ?sel := ?co ! nat (?sel + 1), nat (?sel + 1) := ?co ! nat ?sel])"
      by (intro py_swap_in_range) simp_all
    with right r show ?thesis
      by (simp add: move_selected_def Let_def selection_ok_def)
  next
    case stay
    then have "move_selected kp self = Inr self"
      by (auto simp: move_selected_def Let_def)
    with assms show ?thesis by simp
  qed
qed

lemma completed_step: "completed self \<Longrightarrow> puzzle_step self op = Inr self"
  by (cases op) (simp_all add: ChurchPuzzle_interact_def ChurchPuzzle_handle_input_def Let_def)

lemma completed_run: "completed self \<Longrightarrow> puzzle_run self ops = Inr self"
  by (induction ops) (simp_all add: completed_step)

lemma handle_input_submit:
  assumes act: "active self" and nc: "\<not> completed self" and sel: "selection_ok self"
  shows "\<exists>s1. move_selected kp self = Inr s1 \<and>
           (\<not> (K_a kp \<or> K_LEFT kp \<or> K_d kp \<or> K_RIGHT kp) \<longrightarrow> s1 = self) \<and>
           (current_order s1 = target_order self \<longrightarrow>
              (\<exists>s2 particles. ChurchPuzzle_handle_input kp True dr self = Inr (s2, True, particles) \<and>
                 completed s2 \<and> \<not> active s2 \<and> (\<forall>ops. puzzle_run s2 ops = Inr s2))) \<and>
           (current_order s1 \<noteq> target_order self \<longrightarrow>
              (\<exists>s2. ChurchPuzzle_handle_input kp True dr self = Inr (s2, False, []) \<and>
                 current_order s2 = shuffle (shuffle_draws dr) (current_order s1) \<and>
                 \<not> completed s2 \<and> active s2))"
proof -
  from move_selected_result [OF sel, of kp] obtain s1 where
    s1: "move_selected kp self = Inr s1"
    and fr: "s1 = self\<lparr>current_order := current_order s1, selected_symbol := selected_symbol s1\<rparr>"
    by blast
  have keep: "target_order s1 = target_order self \<and> active s1 \<and> \<not> completed s1"
    using act nc by (subst (1 2 3) fr) simp
  have same: "s1 = self" if "\<not> (K_a kp \<or> K_LEFT kp \<or> K_d kp \<or> K_RIGHT kp)"
    using move_selected_no_keys [OF that, of self] s1 by simp
  have hit: "\<exists>s2 particles. ChurchPuzzle_handle_input kp True dr self = Inr (s2, True, particles) \<and>
      completed s2 \<and> \<not> active s2 \<and> (\<forall>ops. puzzle_run s2 ops = Inr s2)"
    if "current_order s1 = target_order self"
  proof -
    let ?s2 = "s1\<lparr>completed := True, active := False\<rparr>"
    from that keep act nc s1
    have "ChurchPuzzle_handle_input kp True dr self =
        Inr (?s2, True, map (celebration_particle ?s2 dr) [0..<20])"
      by (simp add: ChurchPuzzle_handle_input_def Let_def)
    moreover have "completed ?s2" "\<not> active ?s2" by simp_all
    moreover have "\<forall>ops. puzzle_run ?s2 ops = Inr ?s2"
      by (simp add: completed_run)
    ultimately show ?thesis by blast
  qed
  have miss: "\<exists>s2. ChurchPuzzle_handle_input kp True dr self = Inr (s2, False, []) \<and>
      current_order s2 = shuffle (shuffle_draws dr) (current_order s1) \<and>
      \<not> completed s2 \<and> active s2"
    if "current_order s1 \<noteq> target_order self"
    using that keep act nc s1 by (simp add: ChurchPuzzle_handle_input_def Let_def)
  from s1 same hit miss show ?thesis by blast
qed


lemma shuffle_from_mset:
  "i < length xs \<Longrightarrow> mset (shuffle_from rb i xs) = mset xs"
proof (induction i arbitrary: xs)
  case 0
  then show ?case by simp
next
  case (Suc i)
  let ?j = "rb (Suc i) mod Suc (Suc i)"
  let ?ys = "xs[Suc i := xs ! ?j, ?j := xs ! Suc i]"
  have "?j < Suc (Suc i)" by simp
  with Suc.prems have j: "?j < length xs" by linarith
  from Suc.prems have "i < length ?ys" by simp
  from Suc.IH [OF this] have "mset (shuffle_from rb (Suc i) xs) = mset ?ys"
    by (simp add: Let_def)
  also have "\<dots> = mset xs"
    using mset_swap [OF j Suc.prems] by simp
  finally show ?case .
qed

lemma shuffle_mset: "mset (shuffle rb xs) = mset xs"
proof (cases xs)
  case Nil
  then show ?thesis by (simp add: shuffle_def)
next
  case (Cons x ys)
  then have "length xs - 1 < length xs" by simp
  then show ?thesis unfolding shuffle_def by (rule shuffle_from_mset)
qed

text \<open>
  C9, amended. For an active puzzle that is not completed, a submit (\<open>space_pressed\<close>)
  compares with the target the order as it stands after the swap that a held direction
  key performs earlier in the same call (the order on entry when no such key is held). When they are equal the puzzle is
  completed and deactivated, and no later sequence of \<open>interact\<close> and \<open>handle_input\<close>
  calls changes it again, so \<open>completed\<close> is never cleared. When they differ the
  current order is replaced by a shuffle of itself, the puzzle stays active and
  \<open>completed\<close> stays false.
\<close>

theorem church_puzzle_submit:
  assumes "active self" and "\<not> completed self" and "selection_ok self"
  shows "\<exists>s1. move_selected kp self = Inr s1 \<and>
           (\<not> (K_a kp \<or> K_LEFT kp \<or> K_d kp \<or> K_RIGHT kp) \<longrightarrow> s1 = self) \<and>
           (current_order s1 = target_order self \<longrightarrow>
              (\<exists>s2 particles. ChurchPuzzle_handle_input kp True dr self = Inr (s2, True, particles) \<and>
                 completed s2 \<and> \<not> active s2 \<and> (\<forall>ops. puzzle_run s2 ops = Inr s2))) \<and>
           (current_order s1 \<noteq> target_order self \<longrightarrow>
              (\<exists>s2. ChurchPuzzle_handle_input kp True dr self = Inr (s2, False, []) \<and>
                 current_order s2 = shuffle (shuffle_draws dr) (current_order s1) \<and>
                 mset (current_order s2) = mset (current_order s1) \<and>
                 \<not> completed s2 \<and> active s2))"
proof -
  from handle_input_submit [OF assms, of kp dr] obtain s1 where
    s1: "move_selected kp self = Inr s1"
      "\<not> (K_a kp \<or> K_LEFT kp \<or> K_d kp \<or> K_RIGHT kp) \<longrightarrow> s1 = self"
      "current_order s1 = target_order self \<longrightarrow>
         (\<exists>s2 particles. ChurchPuzzle_handle_input kp True dr self = Inr (s2, True, particles) \<and>
            completed s2 \<and> \<not> active s2 \<and> (\<forall>ops. puzzle_run s2 ops = Inr s2))"
      "current_order s1 \<noteq> target_order self \<longrightarrow>
         (\<exists>s2. ChurchPuzzle_handle_input kp True dr self = Inr (s2, False, []) \<and>
            current_order s2 = shuffle (shuffle_draws dr) (current_order s1) \<and>
            \<not> completed s2 \<and> active s2)"
    by blast
  from s1(4) have "current_order s1 \<noteq> target_order self \<longrightarrow>
         (\<exists>s2. ChurchPuzzle_handle_input kp True dr self = Inr (s2, False, []) \<and>
            current_order s2 = shuffle (shuffle_draws dr) (current_order s1) \<and>
            mset (current_order s2) = mset (current_order s1) \<and>
            \<not> completed s2 \<and> active s2)"
    by (auto simp: shuffle_mset)
  with s1(1-3) show ?thesis by blast
qed

lemma puzzle_run_append:
  "puzzle_run self (xs @ ys) = bind_err (puzzle_run self xs) (\<lambda>s. puzzle_run s ys)"
proof (induction xs arbitrary: self)
  case Nil
  show ?case by simp
next
  case (Cons x xs)
  show ?case
    by (cases "puzzle_step self x") (simp_all add: Cons.IH)
qed

lemma shuffle_zero_draws:
  "shuffle (\<lambda>i. 0) [a, b, c, d] = [b, c, d, a]"
  by (simp add: shuffle_def Let_def)

lemma shuffle_start_draws:
  "shuffle (\<lambda>i. if i = 2 then 1 else 0) [a, b, c, d] = [c, d, b, a]"
  by (simp add: shuffle_def Let_def)

lemma start_order:
  "current_order (ChurchPuzzle_init 200 200 start_draws) = [''bible'', ''angel'', ''candle'', ''cross'']"
  by (simp add: ChurchPuzzle_init_def start_draws_def shuffle_start_draws Let_def)

lemma start_fields:
  "active (ChurchPuzzle_init 200 200 start_draws) = False"
  "completed (ChurchPuzzle_init 200 200 start_draws) = False"
  "selected_symbol (ChurchPuzzle_init 200 200 start_draws) = 0"
  "target_order (ChurchPuzzle_init 200 200 start_draws) = [''angel'', ''bible'', ''candle'', ''cross'']"
  "cp_x (ChurchPuzzle_init 200 200 start_draws) = 200"
  "cp_y (ChurchPuzzle_init 200 200 start_draws) = 200"
  by (simp_all add: ChurchPuzzle_init_def Let_def)

lemma solving_moves_run:
  "puzzle_run (ChurchPuzzle_init 200 200 start_draws) solving_moves = Inr at_target"
proof -
  let ?p = "ChurchPuzzle_init 200 200 start_draws"
  have i: "fst (ChurchPuzzle_interact ?p (Player_init 200 200)) = ?p\<lparr>active := True\<rparr>"
    by (simp add: ChurchPuzzle_interact_def Let_def start_fields Player_init_def)
  have m: "move_selected key_right (?p\<lparr>active := True\<rparr>) = Inr at_target"
    by (simp add: move_selected_def Let_def key_right_def no_keys_def start_fields start_order
        py_swap_def py_getitem_def py_setitem_def at_target_def)
  have h: "ChurchPuzzle_handle_input key_right False zero_draws (?p\<lparr>active := True\<rparr>) =
      Inr (at_target, False, [])"
    by (simp add: ChurchPuzzle_handle_input_def start_fields m)
  show ?thesis
    by (simp add: solving_moves_def i h)
qed

lemma at_target_left:
  "ChurchPuzzle_handle_input key_left True zero_draws at_target =
     Inr (at_target\<lparr>current_order := [''angel'', ''candle'', ''cross'', ''bible''],
            selected_symbol := 0\<rparr>, False, [])"
proof -
  have m: "move_selected key_left at_target =
      Inr (at_target\<lparr>current_order := [''bible'', ''angel'', ''candle'', ''cross''],
             selected_symbol := 0\<rparr>)"
    by (simp add: move_selected_def Let_def key_left_def no_keys_def at_target_def
        py_swap_def py_getitem_def py_setitem_def)
  have f: "active at_target" "\<not> completed at_target"
    "target_order at_target = [''angel'', ''bible'', ''candle'', ''cross'']"
    by (simp_all add: at_target_def start_fields)
  show ?thesis
    by (simp add: ChurchPuzzle_handle_input_def f m zero_draws_def shuffle_zero_draws)
qed

lemma swapped_puzzle_facts:
  "active swapped_puzzle" "\<not> completed swapped_puzzle" "selection_ok swapped_puzzle"
  "target_order swapped_puzzle = [''angel'', ''bible'', ''candle'', ''cross'']"
  "current_order swapped_puzzle = [''bible'', ''angel'', ''candle'', ''cross'']"
  by (simp_all add: swapped_puzzle_def ChurchPuzzle_init_def selection_ok_def Let_def)

lemma swapped_puzzle_left:
  "move_selected key_left swapped_puzzle =
     Inr (swapped_puzzle\<lparr>current_order := [''angel'', ''bible'', ''candle'', ''cross''],
            selected_symbol := 0\<rparr>)"
  by (simp add: move_selected_def Let_def key_left_def no_keys_def swapped_puzzle_def
      ChurchPuzzle_init_def py_swap_def py_getitem_def py_setitem_def)

theorem church_puzzle_submit_witness:
  "active swapped_puzzle \<and> \<not> completed swapped_puzzle \<and> selection_ok swapped_puzzle \<and>
   (\<exists>s2 particles.
      ChurchPuzzle_handle_input key_left True zero_draws swapped_puzzle = Inr (s2, True, particles) \<and>
      completed s2 \<and> \<not> active s2) \<and>
   (\<exists>s2. ChurchPuzzle_handle_input no_keys True zero_draws swapped_puzzle = Inr (s2, False, []) \<and>
      current_order s2 = [''angel'', ''candle'', ''cross'', ''bible''] \<and>
      \<not> completed s2 \<and> active s2)"
proof -
  note f = swapped_puzzle_facts
  from church_puzzle_submit [OF f(1-3), of key_left zero_draws] swapped_puzzle_left f(4)
  have a: "\<exists>s2 particles.
      ChurchPuzzle_handle_input key_left True zero_draws swapped_puzzle = Inr (s2, True, particles) \<and>
      completed s2 \<and> \<not> active s2"
    by auto
  have nk: "\<not> (K_a no_keys \<or> K_LEFT no_keys \<or> K_d no_keys \<or> K_RIGHT no_keys)"
    by (simp add: no_keys_def)
  have ne: "current_order swapped_puzzle \<noteq> target_order swapped_puzzle"
    by (simp add: f)
  have sh: "shuffle (shuffle_draws zero_draws) (current_order swapped_puzzle) =
      [''angel'', ''candle'', ''cross'', ''bible'']"
    by (simp add: f(5) zero_draws_def shuffle_zero_draws)
  from church_puzzle_submit [OF f(1-3), of no_keys zero_draws] nk ne
  obtain s2 where "ChurchPuzzle_handle_input no_keys True zero_draws swapped_puzzle = Inr (s2, False, [])"
    "current_order s2 = shuffle (shuffle_draws zero_draws) (current_order swapped_puzzle)"
    "\<not> completed s2" "active s2"
    by auto
  with sh have b: "\<exists>s2. ChurchPuzzle_handle_input no_keys True zero_draws swapped_puzzle = Inr (s2, False, []) \<and>
      current_order s2 = [''angel'', ''candle'', ''cross'', ''bible''] \<and>
      \<not> completed s2 \<and> active s2"
    by auto
  from f(1-3) a b show ?thesis by blast
qed

text \<open>
  C9, as stated, fails when a direction key is held while submitting. A player opens
  the puzzle and moves the first symbol right: the order now equals the target, the
  puzzle is active and not completed, and the cursor is on the second symbol. A submit
  with the left key held first swaps the two symbols back, finds the order different
  from the target and reshuffles it: the puzzle is not completed although the order
  equalled the target when the call was made.
\<close>

theorem church_puzzle_swap_counterexample:
  "map_sum id (\<lambda>s. (active s, completed s, current_order s = target_order s, selected_symbol s))
     (puzzle_run (ChurchPuzzle_init 200 200 start_draws) solving_moves) = Inr (True, False, True, 1) \<and>
   map_sum id (\<lambda>s. (active s, completed s, current_order s))
     (puzzle_run (ChurchPuzzle_init 200 200 start_draws)
        (solving_moves @ [HandleInput key_left True zero_draws])) =
     Inr (True, False, [''angel'', ''candle'', ''cross'', ''bible''])"
proof -
  have run2: "puzzle_run (ChurchPuzzle_init 200 200 start_draws)
        (solving_moves @ [HandleInput key_left True zero_draws]) =
      Inr (at_target\<lparr>current_order := [''angel'', ''candle'', ''cross'', ''bible''],
             selected_symbol := 0\<rparr>)"
    by (simp add: puzzle_run_append solving_moves_run at_target_left)
  have c1: "map_sum id (\<lambda>s. (active s, completed s, current_order s = target_order s, selected_symbol s))
     (puzzle_run (ChurchPuzzle_init 200 200 start_draws) solving_moves) = Inr (True, False, True, 1)"
    unfolding solving_moves_run by (simp add: at_target_def start_fields)
  have c2: "map_sum id (\<lambda>s. (active s, completed s, current_order s))
     (puzzle_run (ChurchPuzzle_init 200 200 start_draws)
        (solving_moves @ [HandleInput key_left True zero_draws])) =
     Inr (True, False, [''angel'', ''candle'', ''cross'', ''bible''])"
    unfolding run2 by (simp add: at_target_def start_fields)
  from c1 c2 show ?thesis by (rule conjI)
qed

end
